theory Spec2Isabelle
  imports Complex_Main "HOL-Library.Sublist"
begin

section \<open>JavaScript numbers and strings\<close>

text \<open>
  A number of JavaScript: a finite double, given by its value (the two zeros are one
  value), an infinity, or NaN.
\<close>

datatype number = Number rat | PosInfinity | NegInfinity | NaN

text \<open>\<open>a < b\<close> on numbers: false when one of them is NaN.\<close>

fun js_less :: "number \<Rightarrow> number \<Rightarrow> bool" where
  "js_less (Number a) (Number b) = (a < b)"
| "js_less NaN b = False"
| "js_less a NaN = False"
| "js_less a NegInfinity = False"
| "js_less PosInfinity b = False"
| "js_less NegInfinity b = True"
| "js_less a PosInfinity = True"

subsection \<open>Rounding to a double\<close>

text \<open>
  \<open>scale a b e\<close> brings the positive quotient \<open>a / b\<close> into the range of a 53-bit
  significand, keeping \<open>(a / b) * 2^e\<close>.
\<close>

function scale :: "int \<Rightarrow> int \<Rightarrow> int \<Rightarrow> int \<times> int \<times> int" where
  "scale a b e =
     (if a \<le> 0 \<or> b \<le> 0 then (a, b, e)
      else if a < 2 ^ 52 * b then scale (2 * a) b (e - 1)
      else if 2 ^ 53 * b \<le> a then scale a (2 * b) (e + 1)
      else (a, b, e))"
  by pat_completeness auto
termination
  by (relation "measure (\<lambda>(a, b, e). nat (2 ^ 52 * b - a) + nat (a + 1 - 2 ^ 53 * b))") auto

declare scale.simps [simp del]

text \<open>
  The quotient \<open>a / b\<close> for \<open>0 \<le> a\<close> and \<open>0 < b\<close>, rounded to the nearest integer, half
  to even.
\<close>

definition round_half_even :: "int \<Rightarrow> int \<Rightarrow> int" where
  "round_half_even a b =
     (let q = a div b; r = a mod b
      in if 2 * r < b then q else if b < 2 * r then q + 1 else if even q then q else q + 1)"

definition pow2 :: "int \<Rightarrow> rat" where
  "pow2 e = (if 0 \<le> e then 2 ^ nat e else 1 / 2 ^ nat (- e))"

text \<open>
  The number that the quotient \<open>p / q\<close> (\<open>0 < q\<close>) is as a double: the nearest double,
  ties to even. Below \<open>2^-1022\<close> the doubles are the multiples of \<open>2^-1074\<close>; a
  quotient that rounds to \<open>2^1024\<close> or more is an infinity.
\<close>

definition to_double :: "int \<Rightarrow> int \<Rightarrow> number" where
  "to_double p q =
     (if p = 0 then Number 0
      else
        (case scale \<bar>p\<bar> q 0 of
           (a, b, e) \<Rightarrow>
             (let x = (if e < - 1074 then - 1074 else e);
                  m = (if e < - 1074 then round_half_even (\<bar>p\<bar> * 2 ^ 1074) q
                       else round_half_even a b)
              in if 971 < x \<or> (x = 971 \<and> m = 2 ^ 53)
                 then (if p < 0 then NegInfinity else PosInfinity)
                 else Number (of_int (sgn p * m) * pow2 x))))"

subsection \<open>Strings\<close>

text \<open>
  Characters are the code units below 256. White space and line terminators among them:
\<close>

definition is_ws :: "char \<Rightarrow> bool" where
  "is_ws c = (let n = (of_char c :: nat) in (9 \<le> n \<and> n \<le> 13) \<or> n = 32 \<or> n = 160)"

text \<open>\<open>s.trim()\<close>\<close>

definition trim :: "string \<Rightarrow> string" where
  "trim s = rev (dropWhile is_ws (rev (dropWhile is_ws s)))"

definition digit_value :: "char \<Rightarrow> nat option" where
  "digit_value c =
     (let n = (of_char c :: nat)
      in if 48 \<le> n \<and> n \<le> 57 then Some (n - 48)
         else if 97 \<le> n \<and> n \<le> 122 then Some (n - 87)
         else if 65 \<le> n \<and> n \<le> 90 then Some (n - 55)
         else None)"

definition is_digit :: "nat \<Rightarrow> char \<Rightarrow> bool" where
  "is_digit radix c = (case digit_value c of None \<Rightarrow> False | Some d \<Rightarrow> d < radix)"

definition digits_value :: "nat \<Rightarrow> string \<Rightarrow> int" where
  "digits_value radix ds =
     foldl (\<lambda>acc c. acc * int radix + (case digit_value c of None \<Rightarrow> 0 | Some d \<Rightarrow> int d)) 0
       ds"

text \<open>
  \<open>parseInt(s)\<close> with no radix: leading white space, a sign, \<open>0x\<close> or \<open>0X\<close> for
  radix 16, then the longest run of digits; NaN when there is no digit. The result is
  the integer as a double. (The language lets an implementation round a decimal
  integer of more than 20 digits in two steps; the model rounds it once, as V8 does.)
\<close>

definition parseInt :: "string \<Rightarrow> number" where
  "parseInt s =
     (let s1 = dropWhile is_ws s;
          neg = (case s1 of [] \<Rightarrow> False | c # t \<Rightarrow> c = CHR ''-'');
          s2 = (case s1 of [] \<Rightarrow> s1 | c # t \<Rightarrow> if c = CHR ''+'' \<or> c = CHR ''-'' then t else s1);
          hex = (case s2 of
                   z # x # t \<Rightarrow> z = CHR ''0'' \<and> (x = CHR ''x'' \<or> x = CHR ''X'')
                 | _ \<Rightarrow> False);
          radix = (if hex then 16 else 10);
          s3 = (if hex then drop 2 s2 else s2);
          ds = takeWhile (is_digit radix) s3
      in if ds = [] then NaN
         else to_double ((if neg then - 1 else 1) * digits_value radix ds) 1)"

text \<open>
  The number that a string is read as (\<open>ToNumber\<close> of a string): 0 for a string of
  white space; else, between white space, \<open>0x\<close>, \<open>0o\<close> or \<open>0b\<close> and digits of radix
  16, 8 or 2, or a sign, then \<open>Infinity\<close> or decimal digits with a point and an
  exponent; NaN for every other string.
\<close>

definition non_decimal :: "nat \<Rightarrow> string \<Rightarrow> number" where
  "non_decimal radix ds =
     (if ds \<noteq> [] \<and> list_all (is_digit radix) ds then to_double (digits_value radix ds) 1
      else NaN)"

text \<open>The exponent part: nothing, or \<open>e\<close> or \<open>E\<close>, a sign or none, and digits.\<close>

definition exponent :: "string \<Rightarrow> int option" where
  "exponent r =
     (case r of
        [] \<Rightarrow> Some 0
      | c # t \<Rightarrow>
          if c = CHR ''e'' \<or> c = CHR ''E''
          then (let neg = (case t of [] \<Rightarrow> False | d # u \<Rightarrow> d = CHR ''-'');
                    ds = (case t of
                            [] \<Rightarrow> t
                          | d # u \<Rightarrow> if d = CHR ''+'' \<or> d = CHR ''-'' then u else t)
                in if ds \<noteq> [] \<and> list_all (is_digit 10) ds
                   then Some ((if neg then - 1 else 1) * digits_value 10 ds)
                   else None)
          else None)"

text \<open>
  An unsigned decimal literal as a pair \<open>(d, k)\<close> that stands for \<open>d * 10^k\<close>: digits,
  a point and digits (one of the two runs of digits may be empty), an exponent.
\<close>

definition unsigned_decimal :: "string \<Rightarrow> (int \<times> int) option" where
  "unsigned_decimal u =
     (let ip = takeWhile (is_digit 10) u;
          r1 = dropWhile (is_digit 10) u;
          dot = (case r1 of [] \<Rightarrow> False | c # t \<Rightarrow> c = CHR ''.'');
          fp = (if dot then takeWhile (is_digit 10) (tl r1) else []);
          r2 = (if dot then dropWhile (is_digit 10) (tl r1) else r1)
      in if ip = [] \<and> fp = [] then None
         else (case exponent r2 of
                 None \<Rightarrow> None
               | Some k \<Rightarrow> Some (digits_value 10 (ip @ fp), k - int (length fp))))"

definition string_to_number :: "string \<Rightarrow> number" where
  "string_to_number s =
     (let t = trim s;
          p = take 2 t
      in if t = [] then Number 0
         else if p = ''0x'' \<or> p = ''0X'' then non_decimal 16 (drop 2 t)
         else if p = ''0o'' \<or> p = ''0O'' then non_decimal 8 (drop 2 t)
         else if p = ''0b'' \<or> p = ''0B'' then non_decimal 2 (drop 2 t)
         else
           (let neg = (hd t = CHR ''-'');
                u = (if hd t = CHR ''+'' \<or> hd t = CHR ''-'' then tl t else t)
            in if u = ''Infinity'' then (if neg then NegInfinity else PosInfinity)
               else
                 (case unsigned_decimal u of
                    None \<Rightarrow> NaN
                  | Some (d, k) \<Rightarrow>
                      if 0 \<le> k then to_double ((if neg then - 1 else 1) * d * 10 ^ nat k) 1
                      else to_double ((if neg then - 1 else 1) * d) (10 ^ nat (- k)))))"

section \<open>Values of the request body\<close>

text \<open>
  A field of the JSON body is \<open>undefined\<close> when its key is missing, or a value of
  JSON: \<open>null\<close>, a boolean, a number, a string, an array, or an object that is not an
  array (\<open>JObj\<close>, whatever its members).
\<close>

datatype jsval =
  JUndefined | JNull | JBool bool | JNum number | JStr string | JArr "jsval list" | JObj

text \<open>
  Truthiness, as \<open>!x\<close> and \<open>x || y\<close> test it: \<open>undefined\<close>, \<open>null\<close>, \<open>false\<close>, 0, NaN
  and the empty string are falsy, every other value is truthy.
\<close>

fun truthy :: "jsval \<Rightarrow> bool" where
  "truthy JUndefined = False"
| "truthy JNull = False"
| "truthy (JBool b) = b"
| "truthy (JNum n) = (n \<noteq> Number 0 \<and> n \<noteq> NaN)"
| "truthy (JStr s) = (s \<noteq> [])"
| "truthy (JArr xs) = True"
| "truthy JObj = True"

text \<open>
  \<open>ToNumber\<close>. An object is NaN. An array is read as the string that joins its
  elements with commas: no element gives the empty string, which is 0; one element
  gives the string of that element (empty for \<open>null\<close>), and the string of a number is
  read back as that number; two elements or more give a string with a comma, which is
  NaN.
\<close>

fun to_number :: "jsval \<Rightarrow> number" where
  "to_number JUndefined = NaN"
| "to_number JNull = Number 0"
| "to_number (JBool b) = Number (if b then 1 else 0)"
| "to_number (JNum n) = n"
| "to_number (JStr s) = string_to_number s"
| "to_number JObj = NaN"
| "to_number (JArr []) = Number 0"
| "to_number (JArr [JArr xs]) = to_number (JArr xs)"
| "to_number (JArr [JUndefined]) = Number 0"
| "to_number (JArr [JNull]) = Number 0"
| "to_number (JArr [JNum n]) = n"
| "to_number (JArr [JStr s]) = string_to_number s"
| "to_number (JArr [JBool b]) = NaN"
| "to_number (JArr [JObj]) = NaN"
| "to_number (JArr (x # y # zs)) = NaN"

text \<open>\<open>x < k\<close> and \<open>x > k\<close> for a value \<open>x\<close> and a number literal \<open>k\<close>.\<close>

definition js_lt :: "jsval \<Rightarrow> rat \<Rightarrow> bool" where
  "js_lt x k = js_less (to_number x) (Number k)"

definition js_gt :: "jsval \<Rightarrow> rat \<Rightarrow> bool" where
  "js_gt x k = js_less (Number k) (to_number x)"

section \<open>The store\<close>

text \<open>
  Modelled from the spec: the schema of table \<open>feedback\<close> is not in \<open>server.js\<close>. The
  columns are those of the data model: an id that the store generates, the six data
  columns, \<open>submission_date\<close> set at creation and \<open>updated_at\<close> set on modification.
  The spec states no constraint that the store enforces on a data column, so every data
  column is nullable and unconstrained: a text column holds any string and an integer
  column any integer. Times are seconds on the store's clock.
\<close>

record row =
  row_id :: int
  r_name :: "string option"
  r_email :: "string option"
  r_feedback_type :: "string option"
  r_subject_course :: "string option"
  r_overall_rating :: "int option"
  r_detailed_feedback :: "string option"
  r_submission_date :: nat
  r_updated_at :: "nat option"

text \<open>
  A bound parameter of \<open>pool.execute\<close>, as the driver sends it: \<open>null\<close>, a number, a
  boolean, a string, or the JSON text of an array or an object (\<open>PJson\<close>; the text
  itself is not modelled).
\<close>

datatype param = PNull | PNum number | PBool bool | PStr string | PJson

text \<open>
  What the store does with a parameter that is not of the type of its column is not in
  \<open>server.js\<close>: by its configuration the store converts the parameter or rejects the
  statement. The store carries its two conversions, \<open>to_int\<close> to an integer column and
  \<open>to_text\<close> to a text column: \<open>None\<close> rejects the statement, \<open>Some None\<close> is \<open>NULL\<close>.
\<close>

record store =
  rows :: "row list"
  next_id :: int
  to_int :: "param \<Rightarrow> int option option"
  to_text :: "param \<Rightarrow> string option option"

text \<open>The conversion of a store that rejects every parameter of another type.\<close>

definition reject :: "param \<Rightarrow> 'a option option" where
  "reject p = None"

definition empty_store :: store where
  "empty_store = \<lparr>rows = [], next_id = 1, to_int = reject, to_text = reject\<rparr>"

text \<open>Ids are unique and below the next id to be generated.\<close>

definition wf_store :: "store \<Rightarrow> bool" where
  "wf_store s = (distinct (map row_id (rows s)) \<and> list_all (\<lambda>r. row_id r < next_id s) (rows s))"

text \<open>A value of a column, and of a comparison with one.\<close>

datatype sqlval = SqlNull | SqlInt int | SqlStr string

text \<open>\<open>pool.execute\<close> rejects: the handlers catch it and answer 500.\<close>

datatype db_error = DbError

text \<open>
  A parameter as the value of a text or an integer column: \<open>null\<close> is \<open>NULL\<close>, a string
  is itself in a text column, a number whose value is an integer is that integer in an
  integer column; every other parameter is left to the conversion of the store.
\<close>

fun text_col :: "store \<Rightarrow> param \<Rightarrow> string option option" where
  "text_col s PNull = Some None"
| "text_col s (PStr x) = Some (Some x)"
| "text_col s p = to_text s p"

fun int_col :: "store \<Rightarrow> param \<Rightarrow> int option option" where
  "int_col s PNull = Some None"
| "int_col s (PNum (Number x)) =
     (if of_int \<lfloor>x\<rfloor> = x then Some (Some \<lfloor>x\<rfloor>) else to_int s (PNum (Number x)))"
| "int_col s p = to_int s p"

subsection \<open>Conditions and their parameters\<close>

datatype column =
  ColId | ColName | ColEmail | ColFeedbackType | ColSubjectCourse | ColOverallRating
  | ColDetailedFeedback

fun column_value :: "column \<Rightarrow> row \<Rightarrow> sqlval" where
  "column_value ColId r = SqlInt (row_id r)"
| "column_value ColName r = (case r_name r of None \<Rightarrow> SqlNull | Some s \<Rightarrow> SqlStr s)"
| "column_value ColEmail r = (case r_email r of None \<Rightarrow> SqlNull | Some s \<Rightarrow> SqlStr s)"
| "column_value ColFeedbackType r =
     (case r_feedback_type r of None \<Rightarrow> SqlNull | Some s \<Rightarrow> SqlStr s)"
| "column_value ColSubjectCourse r =
     (case r_subject_course r of None \<Rightarrow> SqlNull | Some s \<Rightarrow> SqlStr s)"
| "column_value ColOverallRating r =
     (case r_overall_rating r of None \<Rightarrow> SqlNull | Some i \<Rightarrow> SqlInt i)"
| "column_value ColDetailedFeedback r =
     (case r_detailed_feedback r of None \<Rightarrow> SqlNull | Some s \<Rightarrow> SqlStr s)"

fun is_text_column :: "column \<Rightarrow> bool" where
  "is_text_column ColId = False"
| "is_text_column ColOverallRating = False"
| "is_text_column _ = True"

text \<open>
  The text of a \<open>WHERE\<close> clause: \<open>1=1\<close>, \<open>col = ?\<close>, \<open>col LIKE ?\<close>, \<open>AND\<close>, \<open>OR\<close>. Each
  \<open>?\<close> takes the next parameter of the list, from left to right.
\<close>

datatype cond = CTrue | CEq column | CLike column | CAnd cond cond | COr cond cond

datatype bcond =
  BTrue | BEq column sqlval | BLike column sqlval | BAnd bcond bcond | BOr bcond bcond

text \<open>
  The value that a parameter is compared as: the store reads it as a value of the
  column's type, as it does for a value to be stored.
\<close>

definition compared :: "store \<Rightarrow> column \<Rightarrow> param \<Rightarrow> sqlval option" where
  "compared s c p =
     (if is_text_column c
      then (case text_col s p of
              None \<Rightarrow> None
            | Some v \<Rightarrow> Some (case v of None \<Rightarrow> SqlNull | Some x \<Rightarrow> SqlStr x))
      else (case int_col s p of
              None \<Rightarrow> None
            | Some v \<Rightarrow> Some (case v of None \<Rightarrow> SqlNull | Some i \<Rightarrow> SqlInt i)))"

fun bind :: "store \<Rightarrow> cond \<Rightarrow> param list \<Rightarrow> (bcond \<times> param list) option" where
  "bind s CTrue ps = Some (BTrue, ps)"
| "bind s (CEq c) [] = None"
| "bind s (CEq c) (p # ps) =
     (case compared s c p of None \<Rightarrow> None | Some v \<Rightarrow> Some (BEq c v, ps))"
| "bind s (CLike c) [] = None"
| "bind s (CLike c) (p # ps) =
     (if is_text_column c
      then (case compared s c p of None \<Rightarrow> None | Some v \<Rightarrow> Some (BLike c v, ps))
      else None)"
| "bind s (CAnd a b) ps =
     (case bind s a ps of
        None \<Rightarrow> None
      | Some (a', ps') \<Rightarrow>
          (case bind s b ps' of None \<Rightarrow> None | Some (b', ps'') \<Rightarrow> Some (BAnd a' b', ps'')))"
| "bind s (COr a b) ps =
     (case bind s a ps of
        None \<Rightarrow> None
      | Some (a', ps') \<Rightarrow>
          (case bind s b ps' of None \<Rightarrow> None | Some (b', ps'') \<Rightarrow> Some (BOr a' b', ps'')))"

subsection \<open>Three-valued logic\<close>

text \<open>A condition is true, false or unknown (\<open>None\<close>); a comparison with \<open>NULL\<close> is unknown.\<close>

fun sql_and :: "bool option \<Rightarrow> bool option \<Rightarrow> bool option" where
  "sql_and (Some False) y = Some False"
| "sql_and x (Some False) = Some False"
| "sql_and (Some True) (Some True) = Some True"
| "sql_and x y = None"

fun sql_or :: "bool option \<Rightarrow> bool option \<Rightarrow> bool option" where
  "sql_or (Some True) y = Some True"
| "sql_or x (Some True) = Some True"
| "sql_or (Some False) (Some False) = Some False"
| "sql_or x y = None"

text \<open>
  Modelled from the spec: the collation of the text columns is not in \<open>server.js\<close>.
  The spec calls \<open>=\<close> on \<open>feedback_type\<close> equality and the search case-insensitive: \<open>=\<close>
  compares strings as they are, \<open>LIKE\<close> compares characters up to the case of the
  letters A to Z.
\<close>

fun sql_eq :: "sqlval \<Rightarrow> sqlval \<Rightarrow> bool option" where
  "sql_eq (SqlInt a) (SqlInt b) = Some (a = b)"
| "sql_eq (SqlStr a) (SqlStr b) = Some (a = b)"
| "sql_eq x y = None"

definition fold_case :: "char \<Rightarrow> char" where
  "fold_case c =
     (if 65 \<le> (of_char c :: nat) \<and> (of_char c :: nat) \<le> 90
      then char_of ((of_char c :: nat) + 32) else c)"

text \<open>
  \<open>LIKE\<close> with the store's default escape character: \<open>%\<close> matches any run of
  characters, \<open>_\<close> any one character, a backslash makes the character after it literal
  (a backslash that ends the pattern is itself literal).
\<close>

fun like_match :: "string \<Rightarrow> string \<Rightarrow> bool" where
  "like_match [] s = (s = [])"
| "like_match (p # ps) [] = (p = CHR ''%'' \<and> like_match ps [])"
| "like_match (p # ps) (c # cs) =
     (if p = CHR ''%'' then like_match ps (c # cs) \<or> like_match (p # ps) cs
      else if p = CHR ''_'' then like_match ps cs
      else if p = CHR 0x5C then
        (case ps of
           [] \<Rightarrow> fold_case p = fold_case c \<and> like_match [] cs
         | e # es \<Rightarrow> fold_case e = fold_case c \<and> like_match es cs)
      else fold_case p = fold_case c \<and> like_match ps cs)"

fun sql_like :: "sqlval \<Rightarrow> sqlval \<Rightarrow> bool option" where
  "sql_like (SqlStr s) (SqlStr p) = Some (like_match p s)"
| "sql_like x y = None"

fun eval_cond :: "bcond \<Rightarrow> row \<Rightarrow> bool option" where
  "eval_cond BTrue r = Some True"
| "eval_cond (BEq c p) r = sql_eq (column_value c r) p"
| "eval_cond (BLike c p) r = sql_like (column_value c r) p"
| "eval_cond (BAnd a b) r = sql_and (eval_cond a r) (eval_cond b r)"
| "eval_cond (BOr a b) r = sql_or (eval_cond a r) (eval_cond b r)"

text \<open>A row is selected when the condition is true of it.\<close>

definition selected :: "bcond \<Rightarrow> row \<Rightarrow> bool" where
  "selected c r = (eval_cond c r = Some True)"

subsection \<open>Statements\<close>

text \<open>
  \<open>ORDER BY submission_date DESC\<close>. The statement does not fix the order of records
  with equal dates: the model puts the one that is later in the table first.
\<close>

definition newest_first :: "row list \<Rightarrow> row list" where
  "newest_first rs = rev (sort_key r_submission_date rs)"

text \<open>No limit, \<open>LIMIT n\<close>, or \<open>LIMIT ? OFFSET ?\<close> with the last two parameters.\<close>

datatype limit_clause = NoLimit | Limit nat | LimitOffset

text \<open>
  \<open>SELECT * FROM feedback WHERE\<close> condition, ordered or not, limited or not. The
  store runs a statement by its meaning in SQL; how the driver encodes a parameter on
  the wire is not modelled. The statement is rejected when the store rejects a
  parameter of the condition, or when a limit or an offset is not a non-negative
  integer.
\<close>

definition execute_select ::
  "cond \<Rightarrow> bool \<Rightarrow> limit_clause \<Rightarrow> param list \<Rightarrow> store \<Rightarrow> db_error + row list" where
  "execute_select w ordered lc params s =
     (case bind s w params of
        None \<Rightarrow> Inl DbError
      | Some (c, rest) \<Rightarrow>
          (let found = filter (selected c) (rows s);
               sorted_rows = (if ordered then newest_first found else found)
           in case lc of
                NoLimit \<Rightarrow> (if rest = [] then Inr sorted_rows else Inl DbError)
              | Limit n \<Rightarrow> (if rest = [] then Inr (take n sorted_rows) else Inl DbError)
              | LimitOffset \<Rightarrow>
                  (case rest of
                     [PNum (Number l), PNum (Number off)] \<Rightarrow>
                       (if of_int \<lfloor>l\<rfloor> = l \<and> of_int \<lfloor>off\<rfloor> = off \<and> 0 \<le> l \<and> 0 \<le> off
                        then Inr (take (nat \<lfloor>l\<rfloor>) (drop (nat \<lfloor>off\<rfloor>) sorted_rows))
                        else Inl DbError)
                   | _ \<Rightarrow> Inl DbError)))"

text \<open>\<open>SELECT COUNT(*) as total FROM feedback WHERE\<close> condition\<close>

definition execute_count :: "cond \<Rightarrow> param list \<Rightarrow> store \<Rightarrow> db_error + nat" where
  "execute_count w params s =
     (case bind s w params of
        Some (c, []) \<Rightarrow> Inr (length (filter (selected c) (rows s)))
      | _ \<Rightarrow> Inl DbError)"

text \<open>
  \<open>INSERT INTO feedback (name, email, feedback_type, subject_course, overall_rating,
  detailed_feedback) VALUES (?, ?, ?, ?, ?, ?)\<close>: the store generates the id and the
  submission date; the result is \<open>insertId\<close>.
\<close>

definition execute_insert :: "param list \<Rightarrow> nat \<Rightarrow> store \<Rightarrow> db_error + (int \<times> store)" where
  "execute_insert params now s =
     (case params of
        [n, e, t, c, r, d] \<Rightarrow>
          (case (text_col s n, text_col s e, text_col s t, text_col s c, int_col s r,
                 text_col s d) of
             (Some n', Some e', Some t', Some c', Some r', Some d') \<Rightarrow>
               Inr (next_id s,
                 s\<lparr>rows := rows s @
                      [\<lparr>row_id = next_id s, r_name = n', r_email = e', r_feedback_type = t',
                        r_subject_course = c', r_overall_rating = r',
                        r_detailed_feedback = d', r_submission_date = now,
                        r_updated_at = None\<rparr>],
                   next_id := next_id s + 1\<rparr>)
           | _ \<Rightarrow> Inl DbError)
      | _ \<Rightarrow> Inl DbError)"

text \<open>
  \<open>UPDATE feedback SET name = ?, email = ?, feedback_type = ?, subject_course = ?,
  overall_rating = ?, detailed_feedback = ?, updated_at = CURRENT_TIMESTAMP WHERE\<close>
  condition: the result is \<open>affectedRows\<close>, the number of rows the condition selects.
\<close>

definition execute_update ::
  "cond \<Rightarrow> param list \<Rightarrow> nat \<Rightarrow> store \<Rightarrow> db_error + (nat \<times> store)" where
  "execute_update w params now s =
     (case params of
        n # e # t # c # r # d # rest \<Rightarrow>
          (case (text_col s n, text_col s e, text_col s t, text_col s c, int_col s r,
                 text_col s d, bind s w rest) of
             (Some n', Some e', Some t', Some c', Some r', Some d', Some (wc, [])) \<Rightarrow>
               Inr (length (filter (selected wc) (rows s)),
                 s\<lparr>rows :=
                      map (\<lambda>x. if selected wc x
                                then x\<lparr>r_name := n', r_email := e', r_feedback_type := t',
                                       r_subject_course := c', r_overall_rating := r',
                                       r_detailed_feedback := d', r_updated_at := Some now\<rparr>
                                else x)
                        (rows s)\<rparr>)
           | _ \<Rightarrow> Inl DbError)
      | _ \<Rightarrow> Inl DbError)"

text \<open>\<open>DELETE FROM feedback WHERE\<close> condition: the result is \<open>affectedRows\<close>.\<close>

definition execute_delete ::
  "cond \<Rightarrow> param list \<Rightarrow> store \<Rightarrow> db_error + (nat \<times> store)" where
  "execute_delete w params s =
     (case bind s w params of
        Some (c, []) \<Rightarrow>
          Inr (length (filter (selected c) (rows s)),
               s\<lparr>rows := filter (\<lambda>x. \<not> selected c x) (rows s)\<rparr>)
      | _ \<Rightarrow> Inl DbError)"

section \<open>Responses\<close>

datatype body =
    ErrorBody string
  | MessageBody string
  | SubmittedBody string int
  | RowBody row
  | FeedbackBody "row list" nat number number
  | SearchBody "row list" nat
  | AnalyticsBody nat string
  | StatusOnly

type_synonym response = "nat \<times> body"

definition internal_error :: response where
  "internal_error = (500, ErrorBody ''Internal server error'')"

section \<open>Submit feedback\<close>

record feedback_body =
  b_name :: jsval
  b_email :: jsval
  b_feedback_type :: jsval
  b_subject_course :: jsval
  b_overall_rating :: jsval
  b_detailed_feedback :: jsval

text \<open>
  A value as a bound parameter. \<open>execute\<close> throws on \<open>undefined\<close> (\<open>None\<close>); the driver
  sends an array or an object as its JSON text.
\<close>

fun js_param :: "jsval \<Rightarrow> param option" where
  "js_param JUndefined = None"
| "js_param JNull = Some PNull"
| "js_param (JBool b) = Some (PBool b)"
| "js_param (JNum n) = Some (PNum n)"
| "js_param (JStr s) = Some (PStr s)"
| "js_param (JArr xs) = Some PJson"
| "js_param JObj = Some PJson"

text \<open>\<open>x || null\<close>\<close>

definition or_null :: "jsval \<Rightarrow> jsval" where
  "or_null x = (if truthy x then x else JNull)"

text \<open>All parameters, or none when one of them is \<open>undefined\<close>.\<close>

fun all_params :: "param option list \<Rightarrow> param list option" where
  "all_params [] = Some []"
| "all_params (None # ps) = None"
| "all_params (Some v # ps) = (case all_params ps of None \<Rightarrow> None | Some vs \<Rightarrow> Some (v # vs))"

text \<open>\<open>POST /api/feedback\<close>, at store time \<open>now\<close>.\<close>

definition submit :: "feedback_body \<Rightarrow> nat \<Rightarrow> store \<Rightarrow> response \<times> store" where
  "submit b now s =
     (if \<not> truthy (b_name b) \<or> \<not> truthy (b_email b) \<or>
         \<not> truthy (b_feedback_type b) \<or> \<not> truthy (b_overall_rating b)
      then ((400, ErrorBody ''Missing required fields''), s)
      else if js_lt (b_overall_rating b) 1 \<or> js_gt (b_overall_rating b) 5
      then ((400, ErrorBody ''Rating must be between 1 and 5''), s)
      else
        (case all_params
                [js_param (b_name b), js_param (b_email b), js_param (b_feedback_type b),
                 js_param (or_null (b_subject_course b)), js_param (b_overall_rating b),
                 js_param (or_null (b_detailed_feedback b))] of
           None \<Rightarrow> (internal_error, s)
         | Some params \<Rightarrow>
             (case execute_insert params now s of
                Inl e \<Rightarrow> (internal_error, s)
              | Inr (new_id, s') \<Rightarrow>
                  ((201, SubmittedBody ''Feedback submitted successfully'' new_id), s'))))"

section \<open>Get, update and delete by id\<close>

text \<open>
  The \<open>:id\<close> of the path is a string, which the store converts to a number when it
  compares it with the id column; the handlers of the model start from that number.
\<close>

definition id_param :: "int \<Rightarrow> param" where
  "id_param i = PNum (Number (of_int i))"


text \<open>\<open>PUT /api/feedback/:id\<close>, at store time \<open>now\<close>.\<close>

definition update_by_id :: "int \<Rightarrow> feedback_body \<Rightarrow> nat \<Rightarrow> store \<Rightarrow> response \<times> store" where
  "update_by_id i b now s =
     (case all_params
             [js_param (b_name b), js_param (b_email b), js_param (b_feedback_type b),
              js_param (b_subject_course b), js_param (b_overall_rating b),
              js_param (b_detailed_feedback b), Some (id_param i)] of
        None \<Rightarrow> (internal_error, s)
      | Some params \<Rightarrow>
          (case execute_update (CEq ColId) params now s of
             Inl e \<Rightarrow> (internal_error, s)
           | Inr (affected, s') \<Rightarrow>
               (if affected = 0 then ((404, ErrorBody ''Feedback not found''), s')
                else ((200, MessageBody ''Feedback updated successfully''), s'))))"

subsection \<open>Authentication\<close>

text \<open>\<open>h.split(' ')\<close>\<close>

fun split_on :: "char \<Rightarrow> string \<Rightarrow> string list" where
  "split_on c [] = [[]]"
| "split_on c (x # xs) =
     (if x = c then [] # split_on c xs
      else (case split_on c xs of [] \<Rightarrow> [[x]] | y # ys \<Rightarrow> (x # y) # ys))"

text \<open>
  \<open>authHeader && authHeader.split(' ')[1]\<close>: the header when it is missing or empty,
  else the second of its pieces, \<open>undefined\<close> when there is one piece only.
\<close>

definition token_of :: "string option \<Rightarrow> jsval" where
  "token_of h =
     (case h of
        None \<Rightarrow> JUndefined
      | Some a \<Rightarrow>
          (if a = [] then JStr a
           else (case split_on CHR '' '' a of p # t # ts \<Rightarrow> JStr t | _ \<Rightarrow> JUndefined)))"

text \<open>
  \<open>authenticateToken\<close>: the response that ends the request, or \<open>None\<close> when \<open>next()\<close>
  is called. \<open>verify t\<close> says whether \<open>jwt.verify\<close> accepts \<open>t\<close> under \<open>JWT_SECRET\<close>.
\<close>

definition authenticateToken :: "(string \<Rightarrow> bool) \<Rightarrow> string option \<Rightarrow> response option" where
  "authenticateToken verify h =
     (case token_of h of
        JStr t \<Rightarrow>
          (if \<not> truthy (JStr t) then Some (401, StatusOnly)
           else if \<not> verify t then Some (403, StatusOnly)
           else None)
      | _ \<Rightarrow> Some (401, StatusOnly))"

text \<open>\<open>DELETE /api/feedback/:id\<close>\<close>

definition delete_by_id ::
  "(string \<Rightarrow> bool) \<Rightarrow> string option \<Rightarrow> int \<Rightarrow> store \<Rightarrow> response \<times> store" where
  "delete_by_id verify h i s =
     (case authenticateToken verify h of
        Some resp \<Rightarrow> (resp, s)
      | None \<Rightarrow>
          (case execute_delete (CEq ColId) [id_param i] s of
             Inl e \<Rightarrow> (internal_error, s)
           | Inr (affected, s') \<Rightarrow>
               (if affected = 0 then ((404, ErrorBody ''Feedback not found''), s')
                else ((200, MessageBody ''Feedback deleted successfully''), s'))))"

section \<open>List and search\<close>

text \<open>
  A parameter of the query string is missing or a string (a parameter that is given
  twice, which the framework turns into an array, is outside the model).
\<close>

fun truthy_opt :: "string option \<Rightarrow> bool" where
  "truthy_opt None = False"
| "truthy_opt (Some s) = (s \<noteq> [])"

text \<open>
  The two blocks \<open>if (type) {...} if (rating) {...}\<close>, which the handlers repeat for
  every query they build: each appends a clause to the text and pushes its parameter.
\<close>

definition add_filters ::
  "string option \<Rightarrow> string option \<Rightarrow> cond \<times> param list \<Rightarrow> cond \<times> param list" where
  "add_filters ftype rating qp =
     (let qp1 = (case ftype of
                   None \<Rightarrow> qp
                 | Some t \<Rightarrow>
                     if t \<noteq> [] then (CAnd (fst qp) (CEq ColFeedbackType), snd qp @ [PStr t])
                     else qp)
      in case rating of
           None \<Rightarrow> qp1
         | Some r \<Rightarrow>
             if r \<noteq> []
             then (CAnd (fst qp1) (CEq ColOverallRating), snd qp1 @ [PNum (parseInt r)])
             else qp1)"

record list_query =
  q_type :: "string option"
  q_rating :: "string option"
  q_limit :: "string option"
  q_offset :: "string option"

text \<open>
  \<open>GET /api/feedback\<close>. The handler awaits two statements, one after the other: the
  page is selected from the store as it is then (\<open>s\<close>), the total is counted in the
  store as it is when the second statement runs (\<open>s'\<close>), after whatever other requests
  did in between.
\<close>

definition list_feedback :: "list_query \<Rightarrow> store \<Rightarrow> store \<Rightarrow> response" where
  "list_feedback rq s s' =
     (let limit = (case q_limit rq of None \<Rightarrow> Number 50 | Some l \<Rightarrow> parseInt l);
          offset = (case q_offset rq of None \<Rightarrow> Number 0 | Some off \<Rightarrow> parseInt off);
          qp = add_filters (q_type rq) (q_rating rq) (CTrue, []);
          params = snd qp @ [PNum limit, PNum offset]
      in case execute_select (fst qp) True LimitOffset params s of
           Inl e \<Rightarrow> internal_error
         | Inr found \<Rightarrow>
             (let cqp = add_filters (q_type rq) (q_rating rq) (CTrue, [])
              in case execute_count (fst cqp) (snd cqp) s' of
                   Inl e \<Rightarrow> internal_error
                 | Inr n \<Rightarrow> (200, FeedbackBody found n limit offset)))"

record search_query =
  sq_q :: "string option"
  sq_type :: "string option"
  sq_rating :: "string option"

text \<open>\<open>GET /api/search\<close>\<close>

definition search :: "search_query \<Rightarrow> store \<Rightarrow> response" where
  "search rq s =
     (case sq_q rq of
        None \<Rightarrow> (400, ErrorBody ''Search query must be at least 2 characters'')
      | Some q \<Rightarrow>
          if q = [] \<or> length (trim q) < 2
          then (400, ErrorBody ''Search query must be at least 2 characters'')
          else
            (let searchTerm = ''%'' @ trim q @ ''%'';
                 qp = add_filters (sq_type rq) (sq_rating rq)
                        (COr (COr (CLike ColDetailedFeedback) (CLike ColSubjectCourse))
                             (CLike ColName),
                         [PStr searchTerm, PStr searchTerm, PStr searchTerm])
             in case execute_select (fst qp) True (Limit 50) (snd qp) s of
                  Inl e \<Rightarrow> internal_error
                | Inr found \<Rightarrow> (200, SearchBody found (length found))))"

section \<open>Analytics\<close>

text \<open>The quotient \<open>a / b\<close> for \<open>0 < b\<close>, rounded to the nearest integer, half away from zero.\<close>

definition round_div :: "int \<Rightarrow> int \<Rightarrow> int" where
  "round_div a b = sgn a * ((2 * \<bar>a\<bar> + b) div (2 * b))"

text \<open>
  \<open>AVG(overall_rating)\<close>: \<open>NULL\<close> when no row has a rating, else the mean of the
  ratings that are not \<open>NULL\<close> as a decimal with four fractional digits, given here in
  ten-thousandths.
\<close>

definition sql_avg :: "int list \<Rightarrow> int option" where
  "sql_avg xs =
     (if xs = [] then None else Some (round_div (sum_list xs * 10000) (int (length xs))))"

text \<open>
  A finite double \<open>m * 2^e\<close> as the pair \<open>(m, e)\<close>: the double nearest to \<open>p / q\<close>
  (\<open>0 < q\<close>), ties to even. The exponent range of a double is not needed here: an
  average of ratings is far inside it.
\<close>

definition nearest_double :: "int \<Rightarrow> int \<Rightarrow> int \<times> int" where
  "nearest_double p q =
     (if p = 0 then (0, 0)
      else (case scale \<bar>p\<bar> q 0 of (a, b, e) \<Rightarrow> (sgn p * round_half_even a b, e)))"

text \<open>The decimal digits of a natural number.\<close>

function digits :: "nat \<Rightarrow> string" where
  "digits n = (if n < 10 then [char_of (48 + n)] else digits (n div 10) @ [char_of (48 + n mod 10)])"
  by pat_completeness auto
termination
  by (relation "measure id") auto

declare digits.simps [simp del]

text \<open>
  \<open>x.toFixed(1)\<close> for a double \<open>x = m * 2^e\<close> below \<open>10^21\<close>: the integer \<open>n\<close> with
  \<open>n / 10\<close> nearest to \<open>\<bar>x\<bar>\<close>, the larger one of two, written with one fractional
  digit after the sign of \<open>x\<close>.
\<close>

definition tenths :: "int \<times> int \<Rightarrow> int" where
  "tenths x =
     (case x of
        (m, e) \<Rightarrow>
          if 0 \<le> e then 10 * \<bar>m\<bar> * 2 ^ nat e
          else (20 * \<bar>m\<bar> + 2 ^ nat (- e)) div (2 * 2 ^ nat (- e)))"

definition show_tenths :: "int \<Rightarrow> string" where
  "show_tenths n = digits (nat (n div 10)) @ ''.'' @ digits (nat (n mod 10))"

definition toFixed1 :: "int \<times> int \<Rightarrow> string" where
  "toFixed1 x = (if fst x < 0 then ''-'' else []) @ show_tenths (tenths x)"

text \<open>
  \<open>parseFloat(avgResult[0].average || 0).toFixed(1)\<close>: the driver gives the decimal
  as a string (never empty, so truthy) or \<open>null\<close>.
\<close>

definition average_rating :: "int option \<Rightarrow> string" where
  "average_rating avg =
     toFixed1 (case avg of None \<Rightarrow> (0, 0) | Some v \<Rightarrow> nearest_double v 10000)"

text \<open>
  \<open>GET /api/analytics\<close>: \<open>total_feedback\<close> and \<open>average_rating\<close> of the report. Its four
  other fields come from queries of their own on the calendar and on groups, and are
  not modelled.
\<close>

definition analytics :: "store \<Rightarrow> response" where
  "analytics s =
     (200, AnalyticsBody (length (rows s))
             (average_rating (sql_avg (List.map_filter r_overall_rating (rows s)))))"

section \<open>Notions of the specification\<close>

subsection \<open>Submissions\<close>

text \<open>
  A field is missing: its key is absent, or its value is null or falsy in another way
  (\<open>false\<close>, 0, NaN or the empty string).
\<close>

definition missing :: "jsval \<Rightarrow> bool" where
  "missing x =
     (x = JUndefined \<or> x = JNull \<or> x = JBool False \<or> x = JNum (Number 0) \<or> x = JNum NaN \<or>
      x = JStr [])"

text \<open>The rating, read as a number, is below 1 or above 5.\<close>

definition rating_out_of_range :: "jsval \<Rightarrow> bool" where
  "rating_out_of_range x =
     (case to_number x of
        Number n \<Rightarrow> n < 1 \<or> 5 < n
      | PosInfinity \<Rightarrow> True
      | NegInfinity \<Rightarrow> True
      | NaN \<Rightarrow> False)"

text \<open>A required field is missing, or the rating is out of range.\<close>

definition invalid_submission :: "feedback_body \<Rightarrow> bool" where
  "invalid_submission b =
     (missing (b_name b) \<or> missing (b_email b) \<or> missing (b_feedback_type b) \<or>
      missing (b_overall_rating b) \<or> rating_out_of_range (b_overall_rating b))"

text \<open>
  The values of the data model: the string that a field is, the string when it is not
  empty, and the integer that a field is.
\<close>

definition text_of :: "jsval \<Rightarrow> string option" where
  "text_of x = (case x of JStr t \<Rightarrow> Some t | _ \<Rightarrow> None)"

definition nonempty_text :: "jsval \<Rightarrow> string option" where
  "nonempty_text x = (case x of JStr t \<Rightarrow> if t = [] then None else Some t | _ \<Rightarrow> None)"

definition integer_of :: "jsval \<Rightarrow> int option" where
  "integer_of x =
     (case x of
        JNum (Number n) \<Rightarrow> if of_int \<lfloor>n\<rfloor> = n then Some \<lfloor>n\<rfloor> else None
      | _ \<Rightarrow> None)"

text \<open>
  A valid record of the data model: name, email and feedback type are strings that are
  not empty, the rating is an integer from 1 to 5, and subject course and detailed
  feedback are strings or missing.
\<close>

definition valid_submission :: "feedback_body \<Rightarrow> bool" where
  "valid_submission b =
     (nonempty_text (b_name b) \<noteq> None \<and> nonempty_text (b_email b) \<noteq> None \<and>
      nonempty_text (b_feedback_type b) \<noteq> None \<and>
      (case integer_of (b_overall_rating b) of None \<Rightarrow> False | Some n \<Rightarrow> 1 \<le> n \<and> n \<le> 5) \<and>
      (missing (b_subject_course b) \<or> text_of (b_subject_course b) \<noteq> None) \<and>
      (missing (b_detailed_feedback b) \<or> text_of (b_detailed_feedback b) \<noteq> None))"

text \<open>The record that a submission leaves in the store, under id \<open>i\<close> at time \<open>now\<close>.\<close>

definition submitted_row :: "feedback_body \<Rightarrow> nat \<Rightarrow> int \<Rightarrow> row" where
  "submitted_row b now i =
     \<lparr>row_id = i, r_name = text_of (b_name b), r_email = text_of (b_email b),
      r_feedback_type = text_of (b_feedback_type b),
      r_subject_course = nonempty_text (b_subject_course b),
      r_overall_rating = integer_of (b_overall_rating b),
      r_detailed_feedback = nonempty_text (b_detailed_feedback b),
      r_submission_date = now, r_updated_at = None\<rparr>"


text \<open>The invariant of the data model: every stored rating is from 1 to 5.\<close>

definition rating_in_range :: "store \<Rightarrow> bool" where
  "rating_in_range s =
     list_all (\<lambda>r. case r_overall_rating r of None \<Rightarrow> False | Some n \<Rightarrow> 1 \<le> n \<and> n \<le> 5)
       (rows s)"

subsection \<open>Tokens\<close>



subsection \<open>Filters\<close>

text \<open>
  The type filter of a request: none when the parameter is missing or empty, else
  equality of the feedback type with it.
\<close>

definition type_matches :: "string option \<Rightarrow> row \<Rightarrow> bool" where
  "type_matches ftype r =
     (case ftype of None \<Rightarrow> True | Some t \<Rightarrow> t = [] \<or> r_feedback_type r = Some t)"

text \<open>
  The rating filter of a request: none when the parameter is missing or empty, else
  equality of the rating with the value that the store compares it with, which is the
  integer that the parameter starts with when it starts with one. The store may reject
  a parameter that starts with no integer.
\<close>

definition rating_value :: "store \<Rightarrow> string \<Rightarrow> int option option" where
  "rating_value s x = int_col s (PNum (parseInt x))"

definition rating_rejected :: "store \<Rightarrow> string option \<Rightarrow> bool" where
  "rating_rejected s rating =
     (case rating of None \<Rightarrow> False | Some x \<Rightarrow> x \<noteq> [] \<and> rating_value s x = None)"

definition rating_matches :: "store \<Rightarrow> string option \<Rightarrow> row \<Rightarrow> bool" where
  "rating_matches s rating r =
     (case rating of
        None \<Rightarrow> True
      | Some x \<Rightarrow>
          x = [] \<or>
          (case rating_value s x of Some (Some n) \<Rightarrow> r_overall_rating r = Some n | _ \<Rightarrow> False))"

definition list_matches :: "store \<Rightarrow> list_query \<Rightarrow> row \<Rightarrow> bool" where
  "list_matches s rq r = (type_matches (q_type rq) r \<and> rating_matches s (q_rating rq) r)"

text \<open>The limit and the offset that a request asks for: 50 and 0 when it gives none.\<close>

definition requested_limit :: "list_query \<Rightarrow> number" where
  "requested_limit rq = (case q_limit rq of None \<Rightarrow> Number 50 | Some l \<Rightarrow> parseInt l)"

definition requested_offset :: "list_query \<Rightarrow> number" where
  "requested_offset rq = (case q_offset rq of None \<Rightarrow> Number 0 | Some off \<Rightarrow> parseInt off)"

text \<open>The count that a number is, when it is a non-negative integer.\<close>

definition count_of :: "number \<Rightarrow> nat option" where
  "count_of x =
     (case x of
        Number n \<Rightarrow> if of_int \<lfloor>n\<rfloor> = n \<and> 0 \<le> n then Some (nat \<lfloor>n\<rfloor>) else None
      | _ \<Rightarrow> None)"

text \<open>The records of the store that match, and a page of them, newest first.\<close>

definition matching :: "list_query \<Rightarrow> store \<Rightarrow> row list" where
  "matching rq s = filter (list_matches s rq) (rows s)"

definition page_of :: "nat \<Rightarrow> nat \<Rightarrow> row list \<Rightarrow> row list" where
  "page_of l off rs = take l (drop off (newest_first rs))"

definition newest_to_oldest :: "row list \<Rightarrow> bool" where
  "newest_to_oldest rs = sorted_wrt (\<lambda>a b. r_submission_date b \<le> r_submission_date a) rs"

subsection \<open>Search\<close>

text \<open>A query without the characters that \<open>LIKE\<close> reads as wildcards or as escape.\<close>

definition plain :: "string \<Rightarrow> bool" where
  "plain q = list_all (\<lambda>c. c \<noteq> CHR ''%'' \<and> c \<noteq> CHR ''_'' \<and> c \<noteq> CHR 0x5C) q"

text \<open>A text column contains \<open>q\<close> as a substring, up to the case of letters.\<close>

definition contains_ci :: "string \<Rightarrow> string option \<Rightarrow> bool" where
  "contains_ci q v =
     (case v of None \<Rightarrow> False | Some t \<Rightarrow> sublist (map fold_case q) (map fold_case t))"

definition substring_hit :: "string \<Rightarrow> row \<Rightarrow> bool" where
  "substring_hit q r =
     (contains_ci q (r_detailed_feedback r) \<or> contains_ci q (r_subject_course r) \<or>
      contains_ci q (r_name r))"

text \<open>A text column matches a pattern of \<open>LIKE\<close>.\<close>

definition text_like :: "string \<Rightarrow> string option \<Rightarrow> bool" where
  "text_like p v = (case v of None \<Rightarrow> False | Some t \<Rightarrow> like_match p t)"

definition pattern_hit :: "string \<Rightarrow> row \<Rightarrow> bool" where
  "pattern_hit p r =
     (text_like p (r_detailed_feedback r) \<or> text_like p (r_subject_course r) \<or>
      text_like p (r_name r))"

text \<open>The search term of a request, and the records it finds: the newest 50 that match.\<close>

definition search_term :: "search_query \<Rightarrow> string" where
  "search_term rq = (case sq_q rq of None \<Rightarrow> [] | Some q \<Rightarrow> trim q)"

definition search_matches :: "store \<Rightarrow> search_query \<Rightarrow> row \<Rightarrow> bool" where
  "search_matches s rq r =
     (pattern_hit (''%'' @ search_term rq @ ''%'') r \<and> type_matches (sq_type rq) r \<and>
      rating_matches s (sq_rating rq) r)"

definition search_found :: "search_query \<Rightarrow> store \<Rightarrow> row list" where
  "search_found rq s = take 50 (newest_first (filter (search_matches s rq) (rows s)))"

text \<open>The same with substrings in the place of patterns, as the specification has it.\<close>

definition substring_matches :: "store \<Rightarrow> search_query \<Rightarrow> row \<Rightarrow> bool" where
  "substring_matches s rq r =
     (substring_hit (search_term rq) r \<and> type_matches (sq_type rq) r \<and>
      rating_matches s (sq_rating rq) r)"

definition substring_found :: "search_query \<Rightarrow> store \<Rightarrow> row list" where
  "substring_found rq s = take 50 (newest_first (filter (substring_matches s rq) (rows s)))"

subsection \<open>Averages\<close>

text \<open>The ratings of the store that are not \<open>NULL\<close>, and their mean.\<close>

definition ratings :: "store \<Rightarrow> int list" where
  "ratings s = List.map_filter r_overall_rating (rows s)"

definition mean_rating :: "store \<Rightarrow> real" where
  "mean_rating s = real_of_int (sum_list (ratings s)) / real (length (ratings s))"

text \<open>The number that a double \<open>(m, e)\<close> stands for.\<close>

definition double_value :: "int \<times> int \<Rightarrow> real" where
  "double_value x = real_of_int (fst x) * 2 powr real_of_int (snd x)"

text \<open>
  A number rounded to one decimal place, in tenths: the nearest tenth, the larger one of
  two.
\<close>

definition round_tenths :: "real \<Rightarrow> int" where
  "round_tenths x = \<lfloor>10 * x + 1 / 2\<rfloor>"

text \<open>Every rating of the store is non-negative and below \<open>2^31\<close>.\<close>

definition ratings_bounded :: "store \<Rightarrow> bool" where
  "ratings_bounded s = list_all (\<lambda>r. 0 \<le> r \<and> r < 2 ^ 31) (ratings s)"

section \<open>Example requests and stores\<close>

text \<open>The example stores reject every parameter of another type than its column.\<close>

definition ann_body :: feedback_body where
  "ann_body =
     \<lparr>b_name = JStr ''Ann'', b_email = JStr ''ann@example.org'',
      b_feedback_type = JStr ''course'',
      b_subject_course = JStr [], b_overall_rating = JNum (Number 3),
      b_detailed_feedback = JUndefined\<rparr>"

definition ann_row :: row where
  "ann_row =
     \<lparr>row_id = 1, r_name = Some ''Ann'', r_email = Some ''ann@example.org'',
      r_feedback_type = Some ''course'', r_subject_course = None, r_overall_rating = Some 3,
      r_detailed_feedback = None, r_submission_date = 10, r_updated_at = None\<rparr>"

definition ann_store :: store where
  "ann_store = \<lparr>rows = [ann_row], next_id = 2, to_int = reject, to_text = reject\<rparr>"

definition seven_body :: feedback_body where
  "seven_body =
     \<lparr>b_name = JStr ''Ann'', b_email = JStr ''ann@example.org'',
      b_feedback_type = JStr ''course'',
      b_subject_course = JNull, b_overall_rating = JNum (Number 7),
      b_detailed_feedback = JNull\<rparr>"

definition zero_body :: feedback_body where
  "zero_body =
     \<lparr>b_name = JStr ''Ann'', b_email = JStr ''ann@example.org'',
      b_feedback_type = JStr ''course'',
      b_subject_course = JStr ''Logic'', b_overall_rating = JNum (Number 0),
      b_detailed_feedback = JStr ''ok''\<rparr>"


definition bob_row :: row where
  "bob_row =
     \<lparr>row_id = 2, r_name = Some ''Bob'', r_email = Some ''bob@example.org'',
      r_feedback_type = Some ''facility'', r_subject_course = Some ''Library'',
      r_overall_rating = Some 5, r_detailed_feedback = Some ''Quiet rooms'',
      r_submission_date = 20, r_updated_at = None\<rparr>"

definition cy_row :: row where
  "cy_row =
     \<lparr>row_id = 3, r_name = Some ''Cy'', r_email = Some ''cy@example.org'',
      r_feedback_type = Some ''course'', r_subject_course = Some ''Logic'',
      r_overall_rating = Some 3, r_detailed_feedback = Some ''An excellent course'',
      r_submission_date = 30, r_updated_at = None\<rparr>"

definition three_store :: store where
  "three_store =
     \<lparr>rows = [ann_row, bob_row, cy_row], next_id = 4, to_int = reject, to_text = reject\<rparr>"

definition course_query :: list_query where
  "course_query =
     \<lparr>q_type = Some ''course'', q_rating = Some ''3'', q_limit = Some ''1'', q_offset = None\<rparr>"

definition all_query :: list_query where
  "all_query = \<lparr>q_type = None, q_rating = None, q_limit = None, q_offset = None\<rparr>"

definition wildcard_query :: search_query where
  "wildcard_query = \<lparr>sq_q = Some ''a_n'', sq_type = None, sq_rating = None\<rparr>"

definition course_search :: search_query where
  "course_search = \<lparr>sq_q = Some '' COURSE '', sq_type = Some ''course'', sq_rating = Some ''3''\<rparr>"

definition q_of :: "string option \<Rightarrow> search_query" where
  "q_of q = \<lparr>sq_q = q, sq_type = None, sq_rating = None\<rparr>"

text \<open>A record with rating \<open>r\<close> under id \<open>i\<close>, and two stores of such records.\<close>

definition rated_row :: "int \<Rightarrow> int \<Rightarrow> row" where
  "rated_row r i =
     \<lparr>row_id = i, r_name = Some ''Ann'', r_email = Some ''ann@example.org'',
      r_feedback_type = Some ''course'', r_subject_course = None, r_overall_rating = Some r,
      r_detailed_feedback = None, r_submission_date = nat i, r_updated_at = None\<rparr>"

text \<open>Twenty records: seventeen with rating 3 and three with rating 4, of mean 3.15.\<close>

definition tie_store :: store where
  "tie_store =
     \<lparr>rows = map (rated_row 3) [1..17] @ map (rated_row 4) [18..20], next_id = 21,
      to_int = reject, to_text = reject\<rparr>"

text \<open>
  1003 records: 652 with rating 2 and 351 with rating 3, of mean 2357/1003, which is
  2.34995 and a little more.
\<close>

definition large_store :: store where
  "large_store =
     \<lparr>rows = map (rated_row 2) [1..652] @ map (rated_row 3) [653..1003], next_id = 1004,
      to_int = reject, to_text = reject\<rparr>"

section \<open>Submit\<close>

lemma truthy_iff: "truthy x \<longleftrightarrow> \<not> missing x"
  by (cases x) (auto simp: missing_def)

lemma out_of_range_iff: "rating_out_of_range x \<longleftrightarrow> js_lt x 1 \<or> js_gt x 5"
  by (cases "to_number x") (auto simp: rating_out_of_range_def js_lt_def js_gt_def)

lemma js_param_or_null:
  assumes "missing x \<or> text_of x \<noteq> None"
  shows "js_param (or_null x) = Some (case nonempty_text x of None \<Rightarrow> PNull | Some t \<Rightarrow> PStr t)"
  using assms by (cases x) (auto simp: or_null_def nonempty_text_def missing_def text_of_def)

lemma all_params_six:
  "all_params [a, b, c, d, e, f] =
     (case (a, b, c, d, e, f) of
        (Some a', Some b', Some c', Some d', Some e', Some f') \<Rightarrow> Some [a', b', c', d', e', f']
      | _ \<Rightarrow> None)"
  by (cases a; cases b; cases c; cases d; cases e; cases f) simp_all

lemma submit_missing:
  assumes "\<not> truthy (b_name b) \<or> \<not> truthy (b_email b) \<or>
           \<not> truthy (b_feedback_type b) \<or> \<not> truthy (b_overall_rating b)"
  shows "submit b now s = ((400, ErrorBody ''Missing required fields''), s)"
  using assms by (auto simp: submit_def)


lemma valid_not_invalid:
  assumes "valid_submission b"
  shows "\<not> invalid_submission b"
proof -
  have t: "nonempty_text x \<noteq> None \<Longrightarrow> \<not> missing x" for x
    by (cases x) (auto simp: nonempty_text_def missing_def)
  have r: "(case integer_of x of None \<Rightarrow> False | Some n \<Rightarrow> 1 \<le> n \<and> n \<le> 5) \<Longrightarrow>
           \<not> missing x \<and> \<not> rating_out_of_range x" for x
    by (auto simp: integer_of_def missing_def rating_out_of_range_def
        split: jsval.splits number.splits if_splits)
  from assms show ?thesis
    unfolding valid_submission_def invalid_submission_def using t r by blast
qed

lemma submit_valid:
  assumes "valid_submission b"
  shows "submit b now s =
           ((201, SubmittedBody ''Feedback submitted successfully'' (next_id s)),
            s\<lparr>rows := rows s @ [submitted_row b now (next_id s)], next_id := next_id s + 1\<rparr>)"
proof -
  from assms obtain n e t where
    n: "b_name b = JStr n" "n \<noteq> []" and e: "b_email b = JStr e" "e \<noteq> []" and
    t: "b_feedback_type b = JStr t" "t \<noteq> []"
    unfolding valid_submission_def nonempty_text_def
    by (auto split: jsval.splits if_splits)
  from assms obtain k where r: "b_overall_rating b = JNum (Number (of_int k))"
    unfolding valid_submission_def integer_of_def
    by (auto split: jsval.splits number.splits if_splits option.splits)
  from assms have o: "missing (b_subject_course b) \<or> text_of (b_subject_course b) \<noteq> None"
    "missing (b_detailed_feedback b) \<or> text_of (b_detailed_feedback b) \<noteq> None"
    by (simp_all add: valid_submission_def)
  from valid_not_invalid[OF assms]
  have c: "truthy (b_overall_rating b)" "\<not> js_lt (b_overall_rating b) 1"
    "\<not> js_gt (b_overall_rating b) 5"
    by (simp_all add: invalid_submission_def truthy_iff out_of_range_iff)
  have nt: "text_col s (case nonempty_text x of None \<Rightarrow> PNull | Some t \<Rightarrow> PStr t) =
        Some (nonempty_text x)" for x
    by (cases "nonempty_text x") simp_all
  show ?thesis
    unfolding submit_def
    using c
    by (simp add: n e t r js_param_or_null[OF o(1)] js_param_or_null[OF o(2)]
        execute_insert_def nt submitted_row_def text_of_def integer_of_def)
qed

lemma submit_status:
  "fst (fst (submit b now s)) = 400 \<or> fst (fst (submit b now s)) = 201 \<or>
   fst (fst (submit b now s)) = 500"
  by (auto simp: submit_def internal_error_def split: option.splits sum.splits)


lemma submit_accepted:
  assumes "fst (fst (submit b now s)) = 201"
  shows "\<exists>r. snd (submit b now s) = s\<lparr>rows := rows s @ [r], next_id := next_id s + 1\<rparr> \<and>
           row_id r = next_id s \<and>
           (\<not> truthy (b_subject_course b) \<longrightarrow> r_subject_course r = None) \<and>
           (\<not> truthy (b_detailed_feedback b) \<longrightarrow> r_detailed_feedback r = None)"
  using assms
  by (auto simp: submit_def internal_error_def all_params_six execute_insert_def or_null_def
      split: if_splits option.splits sum.splits prod.splits)



lemma ann_valid: "valid_submission ann_body"
  by (simp add: valid_submission_def ann_body_def nonempty_text_def integer_of_def missing_def)



lemma submit_ann:
  "submit ann_body 10 empty_store =
     ((201, SubmittedBody ''Feedback submitted successfully'' 1), ann_store)"
  by (subst submit_valid[OF ann_valid])
     (simp add: empty_store_def ann_store_def ann_row_def submitted_row_def ann_body_def
        nonempty_text_def text_of_def integer_of_def)

lemma wf_empty: "wf_store empty_store"
  by (simp add: wf_store_def empty_store_def)




text \<open>
  C9. A submission in which a required field is falsy is answered with status 400 and
  the message of a missing field, whatever its rating: a rating of 0 and an empty name,
  email or feedback type are falsy.
\<close>

theorem submit_falsy_is_missing:
  "(\<not> truthy (b_name b) \<or> \<not> truthy (b_email b) \<or> \<not> truthy (b_feedback_type b) \<or>
    \<not> truthy (b_overall_rating b)
    \<longrightarrow> submit b now s = ((400, ErrorBody ''Missing required fields''), s)) \<and>
   \<not> truthy (JNum (Number 0)) \<and> \<not> truthy (JStr [])"
  using submit_missing[of b now s] by simp

theorem submit_falsy_is_missing_witness:
  "submit zero_body 10 ann_store = ((400, ErrorBody ''Missing required fields''), ann_store)"
  using submit_falsy_is_missing[of zero_body 10 ann_store] by (simp add: zero_body_def)

text \<open>
  C10. In the record of an accepted submission (one that is answered with status 201),
  subject course and detailed feedback are \<open>NULL\<close> when the request gives them a falsy
  value or none: an empty string is stored as \<open>NULL\<close>.
\<close>

theorem submit_falsy_optional_is_null:
  assumes "fst (fst (submit b now s)) = 201"
  shows "\<exists>r. rows (snd (submit b now s)) = rows s @ [r] \<and>
           (\<not> truthy (b_subject_course b) \<longrightarrow> r_subject_course r = None) \<and>
           (\<not> truthy (b_detailed_feedback b) \<longrightarrow> r_detailed_feedback r = None) \<and>
           (b_subject_course b = JStr [] \<longrightarrow> r_subject_course r = None) \<and>
           (b_detailed_feedback b = JStr [] \<longrightarrow> r_detailed_feedback r = None)"
proof -
  from submit_accepted[OF assms] obtain r where
    r: "snd (submit b now s) = s\<lparr>rows := rows s @ [r], next_id := next_id s + 1\<rparr>"
      "\<not> truthy (b_subject_course b) \<longrightarrow> r_subject_course r = None"
      "\<not> truthy (b_detailed_feedback b) \<longrightarrow> r_detailed_feedback r = None"
    by blast
  have "rows (snd (submit b now s)) = rows s @ [r]"
    by (simp add: r(1))
  with r(2,3) show ?thesis by auto
qed

theorem submit_falsy_optional_is_null_witness:
  "fst (fst (submit ann_body 10 empty_store)) = 201 \<and> b_subject_course ann_body = JStr [] \<and>
   b_detailed_feedback ann_body = JUndefined \<and>
   rows (snd (submit ann_body 10 empty_store)) = [ann_row] \<and>
   r_subject_course ann_row = None \<and> r_detailed_feedback ann_row = None"
  using submit_falsy_optional_is_null[of ann_body 10 empty_store]
  by (simp add: submit_ann ann_store_def) (simp add: ann_body_def ann_row_def)

section \<open>Get, update and delete by id\<close>

lemma selected_id [simp]: "selected (BEq ColId (SqlInt i)) r \<longleftrightarrow> row_id r = i"
  by (simp add: selected_def)

lemma bind_id: "bind s (CEq ColId) (id_param i # ps) = Some (BEq ColId (SqlInt i), ps)"
  by (simp add: id_param_def compared_def)










lemma execute_update_id:
  assumes "text_col s n = Some n'" "text_col s e = Some e'" "text_col s t = Some t'"
    "text_col s c = Some c'" "int_col s r = Some r'" "text_col s d = Some d'"
  shows "execute_update (CEq ColId) [n, e, t, c, r, d, id_param i] now s =
     Inr (length (filter (\<lambda>x. row_id x = i) (rows s)),
          s\<lparr>rows := map (\<lambda>x. if row_id x = i
                                then x\<lparr>r_name := n', r_email := e', r_feedback_type := t',
                                       r_subject_course := c', r_overall_rating := r',
                                       r_detailed_feedback := d', r_updated_at := Some now\<rparr>
                                else x) (rows s)\<rparr>)"
  using assms by (simp add: execute_update_def bind_id del: bind.simps cong: filter_cong)

text \<open>
  C1 fails on update: the handler binds the rating of the request without the check
  that submit makes. An update with rating 7 of a record with rating 3 is answered with
  status 200 and leaves rating 7 in the store.
\<close>

theorem update_stores_rating_out_of_range:
  "rating_in_range ann_store \<and>
   update_by_id 1 seven_body 20 ann_store =
     ((200, MessageBody ''Feedback updated successfully''),
      ann_store\<lparr>rows := [ann_row\<lparr>r_overall_rating := Some 7, r_updated_at := Some 20\<rparr>]\<rparr>) \<and>
   \<not> rating_in_range (snd (update_by_id 1 seven_body 20 ann_store))"
proof -
  have u: "update_by_id 1 seven_body 20 ann_store =
     ((200, MessageBody ''Feedback updated successfully''),
      ann_store\<lparr>rows := [ann_row\<lparr>r_overall_rating := Some 7, r_updated_at := Some 20\<rparr>]\<rparr>)"
    by (simp add: update_by_id_def seven_body_def execute_update_id)
       (simp add: ann_store_def ann_row_def)
  show ?thesis
    by (simp add: u) (simp add: rating_in_range_def ann_store_def ann_row_def)
qed

lemma execute_delete_id:
  "execute_delete (CEq ColId) [id_param i] s =
     Inr (length (filter (\<lambda>r. row_id r = i) (rows s)),
          s\<lparr>rows := filter (\<lambda>r. row_id r \<noteq> i) (rows s)\<rparr>)"
  by (simp add: execute_delete_def bind_id del: bind.simps cong: filter_cong)






section \<open>Patterns, conditions and pages\<close>

lemma like_percent_only: "like_match ''%'' s"
  by (induction s) auto

lemma like_percent:
  "like_match (CHR ''%'' # p) s \<longleftrightarrow> (\<exists>k\<le>length s. like_match p (drop k s))"
proof (induction s)
  case Nil
  then show ?case by simp
next
  case (Cons c cs)
  have "(\<exists>k\<le>length (c # cs). like_match p (drop k (c # cs))) \<longleftrightarrow>
        like_match p (c # cs) \<or> (\<exists>k\<le>length cs. like_match p (drop k cs))"
  proof
    assume "\<exists>k\<le>length (c # cs). like_match p (drop k (c # cs))"
    then obtain k where k: "k \<le> length (c # cs)" "like_match p (drop k (c # cs))" by blast
    show "like_match p (c # cs) \<or> (\<exists>k\<le>length cs. like_match p (drop k cs))"
    proof (cases k)
      case 0
      with k show ?thesis by simp
    next
      case (Suc j)
      with k have "j \<le> length cs" "like_match p (drop j cs)" by simp_all
      then show ?thesis by blast
    qed
  next
    assume "like_match p (c # cs) \<or> (\<exists>k\<le>length cs. like_match p (drop k cs))"
    then show "\<exists>k\<le>length (c # cs). like_match p (drop k (c # cs))"
    proof
      assume "like_match p (c # cs)"
      then have "0 \<le> length (c # cs) \<and> like_match p (drop 0 (c # cs))" by simp
      then show ?thesis by blast
    next
      assume "\<exists>k\<le>length cs. like_match p (drop k cs)"
      then obtain k where "k \<le> length cs" "like_match p (drop k cs)" by blast
      then have "Suc k \<le> length (c # cs) \<and> like_match p (drop (Suc k) (c # cs))" by simp
      then show ?thesis by blast
    qed
  qed
  with Cons show ?case by simp
qed

lemma like_plain_prefix:
  "plain q \<Longrightarrow> like_match (q @ ''%'') s \<longleftrightarrow> prefix (map fold_case q) (map fold_case s)"
proof (induction q arbitrary: s)
  case Nil
  then show ?case by (simp add: like_percent_only)
next
  case (Cons a q)
  then have a: "a \<noteq> CHR ''%''" "a \<noteq> CHR ''_''" "a \<noteq> CHR 0x5C" and q: "plain q"
    by (simp_all add: plain_def)
  show ?case
  proof (cases s)
    case Nil
    with a show ?thesis by simp
  next
    case (Cons c cs)
    with a Cons.IH[OF q, of cs] show ?thesis by auto
  qed
qed

lemma sublist_drop_prefix: "sublist xs ys \<longleftrightarrow> (\<exists>k\<le>length ys. prefix xs (drop k ys))"
proof
  assume "sublist xs ys"
  then obtain ps ss where "ys = ps @ xs @ ss" by (auto simp: sublist_def)
  then have "length ps \<le> length ys \<and> prefix xs (drop (length ps) ys)" by simp
  then show "\<exists>k\<le>length ys. prefix xs (drop k ys)" by blast
next
  assume "\<exists>k\<le>length ys. prefix xs (drop k ys)"
  then obtain k zs where "drop k ys = xs @ zs" by (auto simp: prefix_def)
  then have "ys = take k ys @ xs @ zs" by (metis append_take_drop_id)
  then show "sublist xs ys" unfolding sublist_def by blast
qed

lemma like_plain_substring:
  assumes "plain q"
  shows "like_match (''%'' @ q @ ''%'') s \<longleftrightarrow> sublist (map fold_case q) (map fold_case s)"
proof -
  have "like_match (''%'' @ q @ ''%'') s \<longleftrightarrow> (\<exists>k\<le>length s. like_match (q @ ''%'') (drop k s))"
    using like_percent[of "q @ ''%''" s] by simp
  also have "\<dots> \<longleftrightarrow> (\<exists>k\<le>length s. prefix (map fold_case q) (drop k (map fold_case s)))"
    by (simp add: like_plain_prefix[OF assms] drop_map)
  also have "\<dots> \<longleftrightarrow> sublist (map fold_case q) (map fold_case s)"
    using sublist_drop_prefix[of "map fold_case q" "map fold_case s"] by simp
  finally show ?thesis .
qed

lemma text_like_plain:
  "plain q \<Longrightarrow> text_like (''%'' @ q @ ''%'') v = contains_ci q v"
  using like_plain_substring[of q]
  by (cases v) (simp_all add: text_like_def contains_ci_def del: like_match.simps)

lemma bind_append:
  "bind s c ps = Some (bc, ps') \<Longrightarrow> bind s c (ps @ rest) = Some (bc, ps' @ rest)"
proof (induction c arbitrary: ps bc ps')
  case CTrue
  then show ?case by simp
next
  case (CEq x)
  then show ?case by (cases ps) (auto split: option.splits)
next
  case (CLike x)
  then show ?case by (cases ps) (auto split: if_splits option.splits)
next
  case (CAnd c1 c2)
  then show ?case by (fastforce split: option.splits prod.splits)
next
  case (COr c1 c2)
  then show ?case by (fastforce split: option.splits prod.splits)
qed

lemma bind_and_eq:
  assumes "bind s c ps = Some (bc, [])" and "compared s col p = Some v"
  shows "bind s (CAnd c (CEq col)) (ps @ p # rest) = Some (BAnd bc (BEq col v), rest)"
  using bind_append[OF assms(1), of "p # rest"] assms(2) by simp

lemma bind_and_eq_none:
  assumes "bind s c ps = Some (bc, [])" and "compared s col p = None"
  shows "bind s (CAnd c (CEq col)) (ps @ p # rest) = None"
  using bind_append[OF assms(1), of "p # rest"] assms(2) by simp

lemma compared_type: "compared s ColFeedbackType (PStr x) = Some (SqlStr x)"
  by (simp add: compared_def)

lemma compared_rating:
  "compared s ColOverallRating (PNum (parseInt x)) =
     (case rating_value s x of
        None \<Rightarrow> None
      | Some v \<Rightarrow> Some (case v of None \<Rightarrow> SqlNull | Some i \<Rightarrow> SqlInt i))"
  by (simp add: compared_def rating_value_def)

lemma sql_and_true: "sql_and x y = Some True \<longleftrightarrow> x = Some True \<and> y = Some True"
  by (induction x y rule: sql_and.induct) auto

lemma sql_or_true: "sql_or x y = Some True \<longleftrightarrow> x = Some True \<or> y = Some True"
  by (induction x y rule: sql_or.induct) auto

lemma selected_and [simp]: "selected (BAnd a b) r \<longleftrightarrow> selected a r \<and> selected b r"
  by (simp add: selected_def sql_and_true)

lemma selected_or [simp]: "selected (BOr a b) r \<longleftrightarrow> selected a r \<or> selected b r"
  by (simp add: selected_def sql_or_true)

lemma selected_true [simp]: "selected BTrue r"
  by (simp add: selected_def)

lemma selected_type [simp]:
  "selected (BEq ColFeedbackType (SqlStr t)) r \<longleftrightarrow> r_feedback_type r = Some t"
  by (cases "r_feedback_type r") (auto simp: selected_def)

lemma selected_rating [simp]:
  "selected (BEq ColOverallRating (SqlInt n)) r \<longleftrightarrow> r_overall_rating r = Some n"
  by (cases "r_overall_rating r") (auto simp: selected_def)

lemma selected_like [simp]:
  "selected (BLike ColDetailedFeedback (SqlStr p)) r \<longleftrightarrow> text_like p (r_detailed_feedback r)"
  "selected (BLike ColSubjectCourse (SqlStr p)) r \<longleftrightarrow> text_like p (r_subject_course r)"
  "selected (BLike ColName (SqlStr p)) r \<longleftrightarrow> text_like p (r_name r)"
  by (auto simp: selected_def text_like_def split: option.splits)

lemma selected_null [simp]: "\<not> selected (BEq c SqlNull) r"
  by (cases "column_value c r") (simp_all add: selected_def)

lemma add_type_filter:
  assumes "bind s c ps = Some (bc, [])"
  shows "\<exists>b1. bind s (fst (add_filters t None (c, ps))) (snd (add_filters t None (c, ps))) =
                 Some (b1, []) \<and>
               (\<forall>r. selected b1 r \<longleftrightarrow> selected bc r \<and> type_matches t r)"
proof (cases "truthy_opt t")
  case True
  then obtain x where x: "t = Some x" "x \<noteq> []" by (cases t) auto
  then have e: "add_filters t None (c, ps) = (CAnd c (CEq ColFeedbackType), ps @ [PStr x])"
    by (simp add: add_filters_def)
  have b: "bind s (CAnd c (CEq ColFeedbackType)) (ps @ [PStr x]) =
        Some (BAnd bc (BEq ColFeedbackType (SqlStr x)), [])"
    by (rule bind_and_eq[OF assms compared_type])
  show ?thesis
    unfolding e fst_conv snd_conv
    by (rule exI[of _ "BAnd bc (BEq ColFeedbackType (SqlStr x))"])
       (simp add: b x type_matches_def del: bind.simps)
next
  case False
  then have e: "add_filters t None (c, ps) = (c, ps)"
    by (cases t) (auto simp: add_filters_def)
  from False have "type_matches t r" for r
    by (cases t) (auto simp: type_matches_def)
  then show ?thesis
    unfolding e fst_conv snd_conv using assms by simp
qed

lemma add_filters_split:
  "add_filters t rating qp =
     (case rating of
        None \<Rightarrow> add_filters t None qp
      | Some x \<Rightarrow>
          if x \<noteq> []
          then (CAnd (fst (add_filters t None qp)) (CEq ColOverallRating),
                snd (add_filters t None qp) @ [PNum (parseInt x)])
          else add_filters t None qp)"
  by (auto simp: add_filters_def Let_def split: option.splits)

lemma add_filters_bind:
  assumes "bind s c ps = Some (bc, [])" and "\<not> rating_rejected s rating"
  shows "\<exists>bc'. bind s (fst (add_filters t rating (c, ps)))
                  (snd (add_filters t rating (c, ps)) @ rest) = Some (bc', rest) \<and>
               (\<forall>r. selected bc' r \<longleftrightarrow>
                  selected bc r \<and> type_matches t r \<and> rating_matches s rating r)"
proof -
  obtain c1 p1 where qp1: "add_filters t None (c, ps) = (c1, p1)"
    by (cases "add_filters t None (c, ps)")
  with add_type_filter[OF assms(1), of t] obtain b1 where
    b1: "bind s c1 p1 = Some (b1, [])"
      "\<And>r. selected b1 r \<longleftrightarrow> selected bc r \<and> type_matches t r"
    by auto
  show ?thesis
  proof (cases "truthy_opt rating")
    case True
    then obtain x where x: "rating = Some x" "x \<noteq> []" by (cases rating) auto
    with assms(2) obtain v where v: "rating_value s x = Some v"
      by (auto simp: rating_rejected_def)
    let ?v = "case v of None \<Rightarrow> SqlNull | Some i \<Rightarrow> SqlInt i"
    have e: "add_filters t rating (c, ps) =
        (CAnd c1 (CEq ColOverallRating), p1 @ [PNum (parseInt x)])"
      by (subst add_filters_split) (simp add: x qp1)
    have b: "bind s (CAnd c1 (CEq ColOverallRating)) (p1 @ PNum (parseInt x) # rest) =
          Some (BAnd b1 (BEq ColOverallRating ?v), rest)"
      by (rule bind_and_eq[OF b1(1)]) (simp add: compared_rating v)
    have m: "selected (BEq ColOverallRating ?v) r \<longleftrightarrow> rating_matches s rating r" for r
      by (cases v) (simp_all add: rating_matches_def x v)
    show ?thesis
      unfolding e fst_conv snd_conv
      by (rule exI[of _ "BAnd b1 (BEq ColOverallRating ?v)"])
         (simp add: b b1(2) m del: bind.simps)
  next
    case False
    then have e: "add_filters t rating (c, ps) = (c1, p1)"
      by (subst add_filters_split) (cases rating; simp add: qp1)
    from False have "rating_matches s rating r" for r
      by (cases rating) (auto simp: rating_matches_def)
    then show ?thesis
      unfolding e fst_conv snd_conv
      using bind_append[OF b1(1), of rest] b1(2) by simp
  qed
qed

lemma add_filters_rejected:
  assumes "bind s c ps = Some (bc, [])" and "rating_rejected s rating"
  shows "bind s (fst (add_filters t rating (c, ps)))
           (snd (add_filters t rating (c, ps)) @ rest) = None"
proof -
  obtain c1 p1 where qp1: "add_filters t None (c, ps) = (c1, p1)"
    by (cases "add_filters t None (c, ps)")
  with add_type_filter[OF assms(1), of t] obtain b1 where
    b1: "bind s c1 p1 = Some (b1, [])"
    by auto
  from assms(2) obtain x where x: "rating = Some x" "x \<noteq> []" "rating_value s x = None"
    by (cases rating) (auto simp: rating_rejected_def)
  have e: "add_filters t rating (c, ps) =
      (CAnd c1 (CEq ColOverallRating), p1 @ [PNum (parseInt x)])"
    by (subst add_filters_split) (simp add: x qp1)
  have "bind s (CAnd c1 (CEq ColOverallRating)) (p1 @ PNum (parseInt x) # rest) = None"
    by (rule bind_and_eq_none[OF b1]) (simp add: compared_rating x)
  then show ?thesis
    unfolding e fst_conv snd_conv by simp
qed

lemma sorted_newest_first: "newest_to_oldest (newest_first rs)"
proof -
  have "sorted (map r_submission_date (sort_key r_submission_date rs))" by simp
  then have "sorted_wrt (\<lambda>a b. r_submission_date a \<le> r_submission_date b)
               (sort_key r_submission_date rs)"
    by (simp add: sorted_wrt_map del: sorted_sort_key)
  then show ?thesis
    by (simp add: newest_to_oldest_def newest_first_def sorted_wrt_rev)
qed

lemma newest_to_oldest_take: "newest_to_oldest rs \<Longrightarrow> newest_to_oldest (take n rs)"
  by (simp add: newest_to_oldest_def)

lemma newest_to_oldest_drop: "newest_to_oldest rs \<Longrightarrow> newest_to_oldest (drop n rs)"
  by (simp add: newest_to_oldest_def)

lemma set_newest_first [simp]: "set (newest_first rs) = set rs"
  by (simp add: newest_first_def)

lemma length_newest_first [simp]: "length (newest_first rs) = length rs"
  by (simp add: newest_first_def)

lemma filter_selected:
  "(\<And>r. selected bc r \<longleftrightarrow> P r) \<Longrightarrow> filter (selected bc) rs = filter P rs"
  by (rule filter_cong) auto

lemma select_limit:
  assumes "bind s w (ps @ [PNum x, PNum y]) = Some (bc, [PNum x, PNum y])"
  shows "execute_select w True LimitOffset (ps @ [PNum x, PNum y]) s =
           (case (count_of x, count_of y) of
              (Some l, Some off) \<Rightarrow>
                Inr (take l (drop off (newest_first (filter (selected bc) (rows s)))))
            | _ \<Rightarrow> Inl DbError)"
  using assms
  by (cases x; cases y) (auto simp: execute_select_def count_of_def simp del: bind.simps)

lemma list_feedback_cases:
  "list_feedback rq s s' =
     (case (count_of (requested_limit rq), count_of (requested_offset rq)) of
        (Some l, Some off) \<Rightarrow>
          if rating_rejected s (q_rating rq) \<or> rating_rejected s' (q_rating rq)
          then internal_error
          else (200, FeedbackBody (page_of l off (matching rq s)) (length (matching rq s'))
                       (requested_limit rq) (requested_offset rq))
      | _ \<Rightarrow> internal_error)"
proof -
  let ?qp = "add_filters (q_type rq) (q_rating rq) (CTrue, [])"
  let ?l = "requested_limit rq" and ?o = "requested_offset rq"
  have b0: "bind t CTrue [] = Some (BTrue, [])" for t by simp
  have lim: "(case q_limit rq of None \<Rightarrow> Number 50 | Some l \<Rightarrow> parseInt l) = ?l"
    and ofs: "(case q_offset rq of None \<Rightarrow> Number 0 | Some off \<Rightarrow> parseInt off) = ?o"
    by (simp_all add: requested_limit_def requested_offset_def)
  show ?thesis
  proof (cases "rating_rejected s (q_rating rq)")
    case True
    from add_filters_rejected[OF b0 True, of "q_type rq" "[PNum ?l, PNum ?o]"]
    have "execute_select (fst ?qp) True LimitOffset (snd ?qp @ [PNum ?l, PNum ?o]) s =
        Inl DbError"
      by (simp add: execute_select_def)
    with True show ?thesis
      by (simp add: list_feedback_def lim ofs Let_def split: option.splits)
  next
    case False
    from add_filters_bind[OF b0 False, of "q_type rq" "[PNum ?l, PNum ?o]"]
    obtain b1 where b1: "bind s (fst ?qp) (snd ?qp @ [PNum ?l, PNum ?o]) =
        Some (b1, [PNum ?l, PNum ?o])" "\<And>r. selected b1 r \<longleftrightarrow> list_matches s rq r"
      by (auto simp: list_matches_def)
    have sel: "execute_select (fst ?qp) True LimitOffset (snd ?qp @ [PNum ?l, PNum ?o]) s =
        (case (count_of ?l, count_of ?o) of
           (Some l, Some off) \<Rightarrow> Inr (page_of l off (matching rq s))
         | _ \<Rightarrow> Inl DbError)"
      by (simp add: select_limit[OF b1(1)] filter_selected[of b1, OF b1(2)] page_of_def
          matching_def split: option.splits)
    show ?thesis
    proof (cases "rating_rejected s' (q_rating rq)")
      case True
      from add_filters_rejected[OF b0 True, of "q_type rq" "[]"]
      have "execute_count (fst ?qp) (snd ?qp) s' = Inl DbError"
        by (simp add: execute_count_def)
      with True show ?thesis
        by (simp add: list_feedback_def lim ofs sel Let_def split: option.splits)
    next
      case r: False
      from add_filters_bind[OF b0 r, of "q_type rq" "[]"]
      obtain b2 where b2: "bind s' (fst ?qp) (snd ?qp) = Some (b2, [])"
        "\<And>r. selected b2 r \<longleftrightarrow> list_matches s' rq r"
        by (auto simp: list_matches_def)
      have cnt: "execute_count (fst ?qp) (snd ?qp) s' = Inr (length (matching rq s'))"
        by (simp add: execute_count_def b2(1) filter_selected[of b2, OF b2(2)] matching_def)
      from False r show ?thesis
        by (simp add: list_feedback_def lim ofs sel cnt Let_def split: option.splits)
    qed
  qed
qed

lemma page_of_props:
  "length (page_of l off rs) \<le> l \<and> length (page_of l off rs) \<le> length rs \<and>
   newest_to_oldest (page_of l off rs) \<and> set (page_of l off rs) \<subseteq> set rs"
proof -
  have "set (page_of l off rs) \<subseteq> set (newest_first rs)"
    unfolding page_of_def by (meson set_take_subset set_drop_subset subset_trans)
  then show ?thesis
    by (simp add: page_of_def newest_to_oldest_take newest_to_oldest_drop sorted_newest_first)
qed

lemma page_of_all: "length rs \<le> l \<Longrightarrow> page_of l 0 rs = newest_first rs"
  by (simp add: page_of_def)

section \<open>Numbers that parseInt reads\<close>

text \<open>
  \<open>parseInt\<close> reads the decimal numeral of a natural number below \<open>2^53\<close> as that
  number, and every number that it reads is an integer.
\<close>

lemma scale_small:
  "0 < a \<Longrightarrow> a < 2 ^ 53 \<Longrightarrow> b = 1 \<Longrightarrow> scale a b e = (a', b', e') \<Longrightarrow>
     b' = 1 \<and> e' \<le> e \<and> a' = a * 2 ^ nat (e - e') \<and> 2 ^ 52 \<le> a' \<and> a' < 2 ^ 53"
proof (induction a b e rule: scale.induct)
  case (1 a b e)
  show ?case
  proof (cases "a < 2 ^ 52 * b")
    case True
    with "1.prems" have s: "scale (2 * a) b (e - 1) = (a', b', e')"
      by (subst (asm) scale.simps) simp
    from True "1.prems" have "2 * a < 2 ^ 53" by simp
    from "1.IH"(1)[OF _ True _ this "1.prems"(3) s] "1.prems"(1,3)
    have i: "b' = 1" "e' \<le> e - 1" "a' = 2 * a * 2 ^ nat (e - 1 - e')" "2 ^ 52 \<le> a'"
      "a' < 2 ^ 53"
      by simp_all
    from i(2) have "nat (e - e') = Suc (nat (e - 1 - e'))" by simp
    with i show ?thesis by simp
  next
    case False
    with "1.prems" have "(a', b', e') = (a, b, e)"
      by (subst (asm) scale.simps) simp
    with False "1.prems" show ?thesis by simp
  qed
qed

lemma round_half_even_one: "round_half_even a 1 = a"
  by (simp add: round_half_even_def)

lemma to_double_small:
  assumes "0 \<le> a" and "a < 2 ^ 53"
  shows "to_double a 1 = Number (of_int a)"
proof (cases "a = 0")
  case True
  then show ?thesis by (simp add: to_double_def)
next
  case False
  with assms have pos: "0 < a" by simp
  obtain a' b' e' where s: "scale a 1 0 = (a', b', e')"
    by (cases "scale a 1 0")
  from scale_small[OF pos assms(2) _ s]
  have p: "b' = 1" "e' \<le> 0" "a' = a * 2 ^ nat (- e')" "a' < 2 ^ 53"
    by simp_all
  define k where "k = nat (- e')"
  have "(1::int) \<le> a" using pos by simp
  then have "(2::int) ^ k * 1 \<le> 2 ^ k * a"
    by (intro mult_left_mono) simp_all
  then have "(2::int) ^ k \<le> a * 2 ^ k"
    by (simp only: mult_1_right mult.commute)
  with p(3,4) have "(2::int) ^ k < 2 ^ 53"
    unfolding k_def by linarith
  then have "k < 53"
    using power_less_imp_less_exp[of "2::int" k 53] by simp
  then have "nat (- e') < 53" by (simp add: k_def)
  then have e: "- 1074 \<le> e'" by simp
  have v: "rat_of_int a' * pow2 e' = rat_of_int a"
    using p(2) by (simp add: p(3) pow2_def)
  show ?thesis
    using pos e p(2) v
    by (simp add: to_double_def s p(1) round_half_even_one Let_def)
qed

lemma digit_char:
  assumes "d < 10"
  shows "digit_value (char_of (48 + d)) = Some d" and "is_digit 10 (char_of (48 + d))"
    and "\<not> is_ws (char_of (48 + d))" and "char_of (48 + d) \<noteq> CHR ''+''"
    and "char_of (48 + d) \<noteq> CHR ''-''" and "char_of (48 + d) \<noteq> CHR ''x''"
    and "char_of (48 + d) \<noteq> CHR ''X''"
proof -
  from assms have "d \<in> {0, 1, 2, 3, 4, 5, 6, 7, 8, 9}" by auto
  then have "digit_value (char_of (48 + d)) = Some d \<and> is_digit 10 (char_of (48 + d)) \<and>
     \<not> is_ws (char_of (48 + d)) \<and> char_of (48 + d) \<noteq> CHR ''+'' \<and>
     char_of (48 + d) \<noteq> CHR ''-'' \<and> char_of (48 + d) \<noteq> CHR ''x'' \<and>
     char_of (48 + d) \<noteq> CHR ''X''"
    by (elim insertE emptyE; hypsubst; code_simp)
  then show "digit_value (char_of (48 + d)) = Some d" "is_digit 10 (char_of (48 + d))"
    "\<not> is_ws (char_of (48 + d))" "char_of (48 + d) \<noteq> CHR ''+''"
    "char_of (48 + d) \<noteq> CHR ''-''" "char_of (48 + d) \<noteq> CHR ''x''"
    "char_of (48 + d) \<noteq> CHR ''X''"
    by simp_all
qed

lemma digits_all:
  "set (digits n) \<subseteq> (\<lambda>d::nat. char_of (48 + d)) ` {..<10} \<and> digits n \<noteq> []"
proof (induction n rule: digits.induct)
  case (1 n)
  show ?case
  proof (cases "n < 10")
    case True
    then have e: "digits n = [char_of (48 + n)]"
      by (subst digits.simps) simp
    from True have "char_of (48 + n) \<in> (\<lambda>d::nat. char_of (48 + d)) ` {..<10}"
      by (intro imageI) simp
    then show ?thesis unfolding e by simp
  next
    case False
    then have e: "digits n = digits (n div 10) @ [char_of (48 + n mod 10)]"
      by (subst digits.simps) simp
    have "char_of (48 + n mod 10) \<in> (\<lambda>d::nat. char_of (48 + d)) ` {..<10}"
      by (intro imageI) simp
    with "1.IH"[OF False] show ?thesis unfolding e by simp
  qed
qed

lemma digits_value_snoc:
  "digits_value r (xs @ [c]) =
     digits_value r xs * int r + (case digit_value c of None \<Rightarrow> 0 | Some d \<Rightarrow> int d)"
  by (simp add: digits_value_def)

lemma digits_value_digits: "digits_value 10 (digits n) = int n"
proof (induction n rule: digits.induct)
  case (1 n)
  show ?case
  proof (cases "n < 10")
    case True
    then show ?thesis
      by (subst digits.simps) (simp add: digits_value_def digit_char(1))
  next
    case False
    have m: "n mod 10 < 10" by simp
    have "int n = int (n div 10) * 10 + int (n mod 10)"
      by (metis div_mult_mod_eq of_nat_add of_nat_mult of_nat_numeral)
    with "1.IH"[OF False] False show ?thesis
      by (subst digits.simps) (simp add: digits_value_snoc digit_char(1)[OF m])
  qed
qed

lemma parseInt_digits:
  assumes "n < 2 ^ 53"
  shows "parseInt (digits n) = Number (of_nat n)"
proof -
  from digits_all[of n]
  have a: "set (digits n) \<subseteq> (\<lambda>d::nat. char_of (48 + d)) ` {..<10}"
    and ne: "digits n \<noteq> []"
    by blast+
  have d: "is_digit 10 c \<and> \<not> is_ws c \<and> c \<noteq> CHR ''+'' \<and> c \<noteq> CHR ''-'' \<and> c \<noteq> CHR ''x'' \<and>
      c \<noteq> CHR ''X''" if "c \<in> set (digits n)" for c
  proof -
    from that a obtain k :: nat where k: "k < 10" "c = char_of (48 + k)" by blast
    from digit_char[OF k(1)] show ?thesis unfolding k(2) by blast
  qed
  from ne obtain c t where ct: "digits n = c # t" by (cases "digits n") auto
  have c: "\<not> is_ws c" "c \<noteq> CHR ''+''" "c \<noteq> CHR ''-''"
    using d[of c] ct by simp_all
  have hex: "(case digits n of z # x # t \<Rightarrow> z = CHR ''0'' \<and> (x = CHR ''x'' \<or> x = CHR ''X'')
      | _ \<Rightarrow> False) = False"
  proof (cases t)
    case Nil
    with ct show ?thesis by simp
  next
    case (Cons x u)
    with ct d[of x] show ?thesis by simp
  qed
  have tw: "takeWhile (is_digit 10) (digits n) = digits n"
    using d by (simp add: takeWhile_eq_all_conv)
  have s1: "dropWhile is_ws (digits n) = digits n"
    using c(1) ct by simp
  have neg: "(case digits n of [] \<Rightarrow> False | c # t \<Rightarrow> c = CHR ''-'') = False"
    using c(3) ct by simp
  have s2: "(case digits n of [] \<Rightarrow> digits n
      | c # t \<Rightarrow> if c = CHR ''+'' \<or> c = CHR ''-'' then t else digits n) = digits n"
    using c(2,3) ct by simp
  from assms have b: "int n < 2 ^ 53"
    by (metis of_nat_less_iff of_nat_numeral of_nat_power)
  have "parseInt (digits n) = to_double (digits_value 10 (digits n)) 1"
    unfolding parseInt_def Let_def s1 neg s2 hex
    by (simp add: tw ne)
  also have "\<dots> = Number (of_int (int n))"
    unfolding digits_value_digits by (rule to_double_small[OF _ b]) simp
  finally show ?thesis by simp
qed

lemma scale_up:
  "0 < a \<Longrightarrow> 0 < b \<Longrightarrow> 2 ^ 52 * b \<le> a \<Longrightarrow> 0 \<le> e \<Longrightarrow> scale a b e = (a', b', e') \<Longrightarrow> 0 \<le> e'"
proof (induction a b e rule: scale.induct)
  case (1 a b e)
  show ?case
  proof (cases "2 ^ 53 * b \<le> a")
    case True
    with "1.prems" have s: "scale a (2 * b) (e + 1) = (a', b', e')"
      by (subst (asm) scale.simps) simp
    from "1.prems"(3) have n: "\<not> a < 2 ^ 52 * b" by simp
    from True have "2 ^ 52 * (2 * b) \<le> a" by simp
    from "1.IH"(2)[OF _ n True "1.prems"(1) _ this _ s] "1.prems"(1,2,4) show ?thesis
      by simp
  next
    case False
    with "1.prems" have "(a', b', e') = (a, b, e)"
      by (subst (asm) scale.simps) simp
    with "1.prems"(4) show ?thesis by simp
  qed
qed

lemma to_double_neg_small:
  assumes "0 < a" and "a < 2 ^ 53"
  shows "to_double (- a) 1 = Number (of_int (- a))"
proof -
  obtain a' b' e' where s: "scale a 1 0 = (a', b', e')"
    by (cases "scale a 1 0")
  from scale_small[OF assms _ s]
  have p: "b' = 1" "e' \<le> 0" "a' = a * 2 ^ nat (- e')" "a' < 2 ^ 53"
    by simp_all
  define k where "k = nat (- e')"
  have "(1::int) \<le> a" using assms(1) by simp
  then have "(2::int) ^ k * 1 \<le> 2 ^ k * a"
    by (intro mult_left_mono) simp_all
  then have "(2::int) ^ k \<le> a * 2 ^ k"
    by (simp only: mult_1_right mult.commute)
  with p(3,4) have "(2::int) ^ k < 2 ^ 53"
    unfolding k_def by linarith
  then have "k < 53"
    using power_less_imp_less_exp[of "2::int" k 53] by simp
  then have "nat (- e') < 53" by (simp add: k_def)
  then have e: "- 1074 \<le> e'" by simp
  have v: "rat_of_int a' * pow2 e' = rat_of_int a"
    using p(2) by (simp add: p(3) pow2_def)
  show ?thesis
    using assms(1) e p(2) v
    by (simp add: to_double_def s p(1) round_half_even_one Let_def)
qed

lemma to_double_integer:
  assumes "to_double p 1 = Number v"
  shows "of_int \<lfloor>v\<rfloor> = v"
proof -
  consider "0 \<le> p" "p < 2 ^ 53" | "p < 0" "- p < 2 ^ 53" | "2 ^ 53 \<le> \<bar>p\<bar>"
    by linarith
  then show ?thesis
  proof cases
    case 1
    from to_double_small[OF 1] assms show ?thesis by simp
  next
    case 2
    then have "0 < - p" by simp
    from to_double_neg_small[OF this 2(2)] assms show ?thesis by simp
  next
    case 3
    then have p: "p \<noteq> 0" "0 < \<bar>p\<bar>" "2 ^ 52 * 1 \<le> \<bar>p\<bar>" by simp_all
    obtain a b e where s: "scale \<bar>p\<bar> 1 0 = (a, b, e)"
      by (cases "scale \<bar>p\<bar> 1 0")
    from scale_up[OF p(2) _ p(3) _ s] have e: "0 \<le> e" by simp
    from assms p(1) e have "v = of_int (sgn p * round_half_even a b) * pow2 e"
      by (simp add: to_double_def s Let_def split: if_splits)
    with e have "v = of_int (sgn p * round_half_even a b * 2 ^ nat e)"
      by (simp add: pow2_def)
    then show ?thesis by (simp only: floor_of_int)
  qed
qed

lemma parseInt_integer:
  assumes "parseInt x = Number v"
  shows "of_int \<lfloor>v\<rfloor> = v"
  using assms to_double_integer
  by (auto simp: parseInt_def Let_def split: if_splits)

lemma rating_value_number:
  assumes "parseInt x = Number v"
  shows "rating_value s x = Some (Some \<lfloor>v\<rfloor>)"
  using parseInt_integer[OF assms] by (simp add: rating_value_def assms)

lemma parseInt_empty: "parseInt [] = NaN"
  by (simp add: parseInt_def)

section \<open>List and search\<close>

lemma parse_1: "parseInt ''1'' = Number 1"
  by code_simp

lemma parse_3: "parseInt ''3'' = Number 3"
  by code_simp

lemma parse_minus_1: "parseInt ''-1'' = Number (- 1)"
  by code_simp

lemma parse_abc: "parseInt ''abc'' = NaN"
  by code_simp

lemma parse_rounds: "parseInt ''9007199254740993'' = Number 9007199254740992"
  by code_simp

lemma rating_3: "rating_value s ''3'' = Some (Some 3)"
  by (simp add: rating_value_def parse_3)

lemma rating_abc: "rating_value three_store ''abc'' = None"
  by (simp add: rating_value_def parse_abc three_store_def reject_def)

lemma rows_ann_store: "rows ann_store = [ann_row]"
  by (simp add: ann_store_def)

lemma rows_three_store: "rows three_store = [ann_row, bob_row, cy_row]"
  by (simp add: three_store_def)

lemma all_query_facts:
  "count_of (requested_limit all_query) = Some 50" "count_of (requested_offset all_query) = Some 0"
  "requested_limit all_query = Number 50" "requested_offset all_query = Number 0"
  "\<not> rating_rejected s (q_rating all_query)" "matching all_query s = rows s"
  by (simp_all add: all_query_def requested_limit_def requested_offset_def count_of_def
      rating_rejected_def matching_def list_matches_def type_matches_def rating_matches_def)

text \<open>
  C3, as the claim states it, fails. The handler runs the page query and the count
  query one after the other, and another request may change the store in between:
  when the one record of the store is deleted between the two, the page has that record
  and the total is 0, which is neither the number of the records that the page was cut
  from nor at least the size of the page. And a request with limit \<open>-1\<close> is answered
  with status 500 and no page.
\<close>

theorem list_total_counterexample:
  "snd (delete_by_id (\<lambda>t. t = ''good'') (Some ''Bearer good'') 1 ann_store) =
     ann_store\<lparr>rows := []\<rparr> \<and>
   list_feedback all_query ann_store (ann_store\<lparr>rows := []\<rparr>) =
     (200, FeedbackBody [ann_row] 0 (Number 50) (Number 0)) \<and>
   list_feedback (all_query\<lparr>q_limit := Some ''-1''\<rparr>) ann_store ann_store =
     (500, ErrorBody ''Internal server error'')"
proof -
  have d: "snd (delete_by_id (\<lambda>t. t = ''good'') (Some ''Bearer good'') 1 ann_store) =
      ann_store\<lparr>rows := []\<rparr>"
    by (simp add: delete_by_id_def authenticateToken_def token_of_def execute_delete_id)
       (simp add: ann_store_def ann_row_def)
  have p: "page_of 50 0 [ann_row] = [ann_row]"
    by (simp add: page_of_def newest_first_def)
  have l: "list_feedback all_query ann_store (ann_store\<lparr>rows := []\<rparr>) =
      (200, FeedbackBody [ann_row] 0 (Number 50) (Number 0))"
    by (simp add: list_feedback_cases all_query_facts(3-6) count_of_def rows_ann_store p)
  have m: "count_of (requested_limit (all_query\<lparr>q_limit := Some ''-1''\<rparr>)) = None"
    by (simp add: requested_limit_def parse_minus_1 count_of_def)
  have "list_feedback (all_query\<lparr>q_limit := Some ''-1''\<rparr>) ann_store ann_store =
      (500, ErrorBody ''Internal server error'')"
    by (simp add: list_feedback_cases m internal_error_def)
  with d l show ?thesis by simp
qed

text \<open>
  C3, amended. The limit and the offset that a list request asks for are the numbers
  that \<open>parseInt\<close> reads from its parameters, 50 and 0 when it gives none; \<open>parseInt\<close>
  reads a decimal numeral below \<open>2^53\<close> as its value. When both are non-negative
  integers and the store accepts the rating parameter, the request is answered with
  status 200, a page and a total; every other request is answered with status 500. The
  store accepts a rating from which \<open>parseInt\<close> reads a number, and the rating filter
  is then equality with that integer. The page is the slice that offset and limit cut
  from the records that match the type filter and the rating filter when the page query
  runs, newest first: it has at most limit records, all of them matching, in descending
  order of submission date, and it has every matching record when the offset is 0 and
  the limit is not below their number. The total is the number of all records that
  match when the count query runs, whatever limit and offset are; it is not below the
  size of the page when the store is the same at both queries.
\<close>

theorem list_feedback_page:
  "list_feedback rq s s' =
     (case (count_of (requested_limit rq), count_of (requested_offset rq)) of
        (Some l, Some off) \<Rightarrow>
          if rating_rejected s (q_rating rq) \<or> rating_rejected s' (q_rating rq)
          then internal_error
          else (200, FeedbackBody (page_of l off (matching rq s)) (length (matching rq s'))
                       (requested_limit rq) (requested_offset rq))
      | _ \<Rightarrow> internal_error) \<and>
   length (page_of l off (matching rq s)) \<le> l \<and>
   length (page_of l off (matching rq s)) \<le> length (matching rq s) \<and>
   newest_to_oldest (page_of l off (matching rq s)) \<and>
   set (page_of l off (matching rq s)) \<subseteq> {r \<in> set (rows s). list_matches s rq r} \<and>
   (off = 0 \<and> length (matching rq s) \<le> l \<longrightarrow>
      set (page_of l off (matching rq s)) = {r \<in> set (rows s). list_matches s rq r}) \<and>
   (q_limit rq = None \<longrightarrow> requested_limit rq = Number 50) \<and>
   (q_offset rq = None \<longrightarrow> requested_offset rq = Number 0) \<and>
   (q_rating rq = Some x \<and> parseInt x = Number v \<longrightarrow>
      \<not> rating_rejected s (q_rating rq) \<and>
      (rating_matches s (q_rating rq) r \<longleftrightarrow> r_overall_rating r = Some \<lfloor>v\<rfloor>)) \<and>
   (n < 2 ^ 53 \<longrightarrow> parseInt (digits n) = Number (of_nat n))"
proof -
  have m: "set (matching rq s) = {r \<in> set (rows s). list_matches s rq r}"
    by (auto simp: matching_def)
  have n1: "q_rating rq = Some x \<and> parseInt x = Number v \<longrightarrow>
      \<not> rating_rejected s (q_rating rq) \<and>
      (rating_matches s (q_rating rq) r \<longleftrightarrow> r_overall_rating r = Some \<lfloor>v\<rfloor>)"
    using parseInt_empty
    by (auto simp: rating_rejected_def rating_matches_def rating_value_number)
  have n2: "n < 2 ^ 53 \<longrightarrow> parseInt (digits n) = Number (of_nat n)"
    by (simp add: parseInt_digits)
  have d: "(q_limit rq = None \<longrightarrow> requested_limit rq = Number 50) \<and>
      (q_offset rq = None \<longrightarrow> requested_offset rq = Number 0)"
    by (auto simp: requested_limit_def requested_offset_def)
  have a: "off = 0 \<and> length (matching rq s) \<le> l \<longrightarrow>
      set (page_of l off (matching rq s)) = set (matching rq s)"
    by (auto simp: page_of_all)
  show ?thesis
    using list_feedback_cases[of rq s s'] page_of_props[of l off "matching rq s"] d a n1 n2
    unfolding m by blast
qed

lemma course_query_facts:
  "count_of (requested_limit course_query) = Some 1"
  "count_of (requested_offset course_query) = Some 0"
  "requested_limit course_query = Number 1" "requested_offset course_query = Number 0"
  "\<not> rating_rejected s (q_rating course_query)"
  by (simp_all add: course_query_def requested_limit_def requested_offset_def count_of_def
      rating_rejected_def parse_1 rating_3)

lemma matching_course: "matching course_query three_store = [ann_row, cy_row]"
  by (simp add: matching_def list_matches_def type_matches_def rating_matches_def
      course_query_def three_store_def rating_3 ann_row_def bob_row_def cy_row_def)

lemma page_course: "page_of (Suc 0) 0 [ann_row, cy_row] = [cy_row]"
  by (simp add: page_of_def newest_first_def ann_row_def cy_row_def)

theorem list_feedback_page_witness:
  "count_of (requested_limit course_query) = Some 1 \<and>
   count_of (requested_offset course_query) = Some 0 \<and>
   \<not> rating_rejected three_store (q_rating course_query) \<and>
   matching course_query three_store = [ann_row, cy_row] \<and>
   list_feedback course_query three_store three_store =
     (200, FeedbackBody [cy_row] 2 (Number 1) (Number 0)) \<and>
   rating_rejected three_store (Some ''abc'') \<and>
   list_feedback (course_query\<lparr>q_rating := Some ''abc''\<rparr>) three_store three_store =
     (500, ErrorBody ''Internal server error'') \<and>
   requested_limit (all_query\<lparr>q_limit := Some ''9007199254740993''\<rparr>) =
     Number 9007199254740992"
proof -
  have r: "rating_rejected three_store (Some ''abc'')"
    by (simp add: rating_rejected_def rating_abc)
  have c: "count_of (requested_limit (course_query\<lparr>q_rating := Some ''abc''\<rparr>)) = Some 1"
    "count_of (requested_offset (course_query\<lparr>q_rating := Some ''abc''\<rparr>)) = Some 0"
    using course_query_facts(1,2) by (simp_all add: requested_limit_def requested_offset_def)
  have b: "requested_limit (all_query\<lparr>q_limit := Some ''9007199254740993''\<rparr>) =
      Number 9007199254740992"
    by (simp add: requested_limit_def parse_rounds)
  show ?thesis
    using list_feedback_page[where rq = course_query and s = three_store and s' = three_store
        and l = 1 and off = 0]
      list_feedback_page[where rq = "course_query\<lparr>q_rating := Some ''abc''\<rparr>"
        and s = three_store and s' = three_store and l = 1 and off = 0]
      course_query_facts r c b
    by (simp add: matching_course page_course internal_error_def)
qed

lemma trim_empty [simp]: "trim [] = []"
  by (simp add: trim_def)

text \<open>
  C4. A search request is answered with status 400 exactly when it has no \<open>q\<close> or the
  trimmed \<open>q\<close> has fewer than 2 characters.
\<close>

theorem search_validation:
  "fst (search rq s) = 400 \<longleftrightarrow> (case sq_q rq of None \<Rightarrow> True | Some q \<Rightarrow> length (trim q) < 2)"
proof (cases "sq_q rq")
  case None
  then show ?thesis by (simp add: search_def)
next
  case (Some q)
  show ?thesis
  proof (cases "q = [] \<or> length (trim q) < 2")
    case True
    with Some show ?thesis by (auto simp: search_def)
  next
    case False
    with Some show ?thesis
      by (auto simp: search_def Let_def internal_error_def split: sum.splits)
  qed
qed

lemma search_cases:
  assumes "sq_q rq = Some q" and "2 \<le> length (trim q)"
  shows "search rq s =
           (if rating_rejected s (sq_rating rq) then internal_error
            else (200, SearchBody (search_found rq s) (length (search_found rq s))))"
proof -
  let ?p = "PStr (CHR ''%'' # trim q @ ''%'')"
  let ?v = "SqlStr (CHR ''%'' # trim q @ ''%'')"
  let ?w = "COr (COr (CLike ColDetailedFeedback) (CLike ColSubjectCourse)) (CLike ColName)"
  let ?qp = "add_filters (sq_type rq) (sq_rating rq) (?w, [?p, ?p, ?p])"
  have b0: "bind s ?w [?p, ?p, ?p] =
      Some (BOr (BOr (BLike ColDetailedFeedback ?v) (BLike ColSubjectCourse ?v))
              (BLike ColName ?v), [])"
    by (simp add: compared_def)
  from assms(2) have q: "q \<noteq> []" "\<not> length (trim q) < 2" by auto
  show ?thesis
  proof (cases "rating_rejected s (sq_rating rq)")
    case True
    from add_filters_rejected[OF b0 True, of "sq_type rq" "[]"]
    have "execute_select (fst ?qp) True (Limit 50) (snd ?qp) s = Inl DbError"
      by (simp add: execute_select_def)
    with True show ?thesis
      by (simp add: search_def assms(1) q Let_def)
  next
    case False
    from add_filters_bind[OF b0 False, of "sq_type rq" "[]"] assms(1)
    obtain b1 where b1: "bind s (fst ?qp) (snd ?qp) = Some (b1, [])"
      "\<And>r. selected b1 r \<longleftrightarrow> search_matches s rq r"
      by (auto simp: search_matches_def pattern_hit_def search_term_def)
    have sel: "execute_select (fst ?qp) True (Limit 50) (snd ?qp) s = Inr (search_found rq s)"
      by (simp add: execute_select_def b1(1) filter_selected[of b1, OF b1(2)] search_found_def)
    from False sel show ?thesis
      by (simp add: search_def assms(1) q Let_def)
  qed
qed

lemma pattern_hit_plain:
  "plain q \<Longrightarrow> pattern_hit (''%'' @ q @ ''%'') r = substring_hit q r"
  using text_like_plain[of q]
  by (simp add: pattern_hit_def substring_hit_def del: like_match.simps)

text \<open>
  C5, amended. A search request whose trimmed \<open>q\<close> has at least 2 characters is
  answered with status 200 and the newest 50 of the records that match: detailed
  feedback, subject course or name matches the pattern of \<open>LIKE\<close> that is the trimmed
  \<open>q\<close> between two \<open>%\<close>, and the type filter and the rating filter hold. The rating
  filter is equality with the integer that \<open>parseInt\<close> reads from the rating. The
  records are in descending order of submission date, and all matching records are
  there when they are at most 50. When the trimmed \<open>q\<close> has no \<open>%\<close>, \<open>_\<close> or
  backslash, a column matches the pattern exactly when it contains the trimmed \<open>q\<close> as
  a substring, up to the case of letters. The one exception: a rating from which
  \<open>parseInt\<close> reads no number is left to the store, and when the store rejects it the
  request is answered with status 500.
\<close>

theorem search_results:
  assumes "sq_q rq = Some q" and "2 \<le> length (trim q)"
  shows "search rq s =
           (if rating_rejected s (sq_rating rq) then internal_error
            else (200, SearchBody (search_found rq s) (length (search_found rq s)))) \<and>
         length (search_found rq s) \<le> 50 \<and> newest_to_oldest (search_found rq s) \<and>
         set (search_found rq s) \<subseteq> {r \<in> set (rows s). search_matches s rq r} \<and>
         (length (filter (search_matches s rq) (rows s)) \<le> 50 \<longrightarrow>
            set (search_found rq s) = {r \<in> set (rows s). search_matches s rq r}) \<and>
         (plain (trim q) \<longrightarrow>
            search_found rq s = substring_found rq s \<and>
            (\<forall>r. search_matches s rq r \<longleftrightarrow> substring_matches s rq r)) \<and>
         (sq_rating rq = Some x \<and> parseInt x = Number v \<longrightarrow>
            \<not> rating_rejected s (sq_rating rq) \<and>
            (\<forall>r. rating_matches s (sq_rating rq) r \<longleftrightarrow> r_overall_rating r = Some \<lfloor>v\<rfloor>)) \<and>
         (n < 2 ^ 53 \<longrightarrow> parseInt (digits n) = Number (of_nat n))"
proof -
  have n3: "sq_rating rq = Some x \<and> parseInt x = Number v \<longrightarrow>
      \<not> rating_rejected s (sq_rating rq) \<and>
      (\<forall>r. rating_matches s (sq_rating rq) r \<longleftrightarrow> r_overall_rating r = Some \<lfloor>v\<rfloor>)"
    using parseInt_empty
    by (auto simp: rating_rejected_def rating_matches_def rating_value_number)
  have n4: "n < 2 ^ 53 \<longrightarrow> parseInt (digits n) = Number (of_nat n)"
    by (simp add: parseInt_digits)
  have p: "plain (trim q) \<Longrightarrow> search_matches s rq r \<longleftrightarrow> substring_matches s rq r" for r
    using pattern_hit_plain[of "trim q" r] assms(1)
    by (simp add: search_matches_def substring_matches_def search_term_def)
  then have f: "plain (trim q) \<Longrightarrow> search_found rq s = substring_found rq s"
    by (simp add: search_found_def substring_found_def cong: filter_cong)
  have sub: "set (search_found rq s) \<subseteq> {r \<in> set (rows s). search_matches s rq r}"
  proof -
    have "set (search_found rq s) \<subseteq> set (newest_first (filter (search_matches s rq) (rows s)))"
      unfolding search_found_def by (rule set_take_subset)
    then show ?thesis by auto
  qed
  have all: "length (filter (search_matches s rq) (rows s)) \<le> 50 \<Longrightarrow>
      set (search_found rq s) = {r \<in> set (rows s). search_matches s rq r}"
    by (auto simp: search_found_def)
  have srt: "newest_to_oldest (search_found rq s)"
    by (simp add: search_found_def newest_to_oldest_take sorted_newest_first)
  have len: "length (search_found rq s) \<le> 50"
    by (simp add: search_found_def)
  from search_cases[OF assms, of s] len srt sub all p f n3 n4 show ?thesis by blast
qed


lemma trim_a_n: "trim ''a_n'' = ''a_n''"
  by code_simp

lemma trim_course: "trim '' COURSE '' = ''COURSE''"
  by code_simp

lemma trim_ab: "trim ''ab'' = ''ab''"
  by code_simp

lemma trim_a: "trim ''a'' = ''a''"
  by code_simp

lemma wildcard_hits: "pattern_hit ''%a_n%'' ann_row"
  by (simp add: pattern_hit_def text_like_def ann_row_def) code_simp

lemma wildcard_misses: "\<not> substring_hit ''a_n'' ann_row"
  by (simp add: substring_hit_def contains_ci_def ann_row_def) code_simp


text \<open>
  C5, as the claim states it, fails: the query \<open>a_n\<close> finds the record of Ann, whose
  name, subject course and detailed feedback do not contain \<open>a_n\<close>.
\<close>

theorem search_substring_counterexample:
  "search wildcard_query ann_store = (200, SearchBody [ann_row] 1) \<and>
   substring_found wildcard_query ann_store = []"
proof -
  have q: "sq_q wildcard_query = Some ''a_n''" "2 \<le> length (trim ''a_n'')"
    by (simp_all add: wildcard_query_def trim_a_n)
  have k: "\<not> rating_rejected ann_store (sq_rating wildcard_query)"
    by (simp add: wildcard_query_def rating_rejected_def)
  have m: "search_matches ann_store wildcard_query ann_row"
    using wildcard_hits
    by (simp add: search_matches_def search_term_def wildcard_query_def trim_a_n
        type_matches_def rating_matches_def del: like_match.simps)
  have n: "\<not> substring_matches ann_store wildcard_query ann_row"
    using wildcard_misses
    by (simp add: substring_matches_def search_term_def wildcard_query_def trim_a_n)
  have f: "search_found wildcard_query ann_store = [ann_row]"
    by (simp add: search_found_def rows_ann_store m newest_first_def)
  have g: "substring_found wildcard_query ann_store = []"
    by (simp add: substring_found_def rows_ann_store n newest_first_def)
  from search_cases[OF q, of ann_store] k f g show ?thesis by simp
qed

lemma course_hits:
  "\<not> substring_hit ''COURSE'' ann_row" "substring_hit ''COURSE'' cy_row"
  by (simp_all add: substring_hit_def contains_ci_def ann_row_def cy_row_def) code_simp+

theorem search_results_witness:
  "sq_q course_search = Some '' COURSE '' \<and> trim '' COURSE '' = ''COURSE'' \<and>
   \<not> rating_rejected three_store (sq_rating course_search) \<and>
   search course_search three_store = (200, SearchBody [cy_row] 1) \<and>
   plain ''COURSE'' \<and> substring_found course_search three_store = [cy_row] \<and>
   rating_rejected three_store (Some ''abc'') \<and>
   search (course_search\<lparr>sq_rating := Some ''abc''\<rparr>) three_store =
     (500, ErrorBody ''Internal server error'')"
proof -
  have q: "sq_q course_search = Some '' COURSE ''" "2 \<le> length (trim '' COURSE '')"
    by (simp_all add: course_search_def trim_course)
  have k: "\<not> rating_rejected three_store (sq_rating course_search)"
    by (simp add: course_search_def rating_rejected_def rating_3)
  have r: "rating_rejected three_store (Some ''abc'')"
    by (simp add: rating_rejected_def rating_abc)
  have q': "sq_q (course_search\<lparr>sq_rating := Some ''abc''\<rparr>) = Some '' COURSE ''"
    by (simp add: course_search_def)
  have p: "plain (trim '' COURSE '')"
    by (simp add: trim_course plain_def)
  have m: "\<not> substring_matches three_store course_search ann_row"
    "\<not> substring_matches three_store course_search bob_row"
    "substring_matches three_store course_search cy_row"
    using course_hits
    by (simp_all add: substring_matches_def search_term_def course_search_def trim_course
        type_matches_def rating_matches_def rating_3 bob_row_def)
       (simp add: cy_row_def)
  have g: "substring_found course_search three_store = [cy_row]"
    by (simp add: substring_found_def rows_three_store m newest_first_def)
  from search_results[OF q, of three_store] search_results[OF q' q(2), of three_store]
    p g q(1) k r
  show ?thesis
    by (simp add: trim_course internal_error_def)
qed

theorem search_validation_witness:
  "fst (search (q_of None) ann_store) = 400 \<and> fst (search (q_of (Some [])) ann_store) = 400 \<and>
   fst (search (q_of (Some ''a'')) ann_store) = 400 \<and>
   fst (search (q_of (Some ''ab'')) ann_store) \<noteq> 400 \<and>
   search (q_of (Some ''ab'')) ann_store = (200, SearchBody [] 0)"
proof -
  have q: "sq_q (q_of (Some ''ab'')) = Some ''ab''" "2 \<le> length (trim ''ab'')"
    by (simp_all add: q_of_def trim_ab)
  have k: "\<not> rating_rejected ann_store (sq_rating (q_of (Some ''ab'')))"
    by (simp add: q_of_def rating_rejected_def)
  have h: "\<not> pattern_hit ''%ab%'' ann_row"
    by (simp add: pattern_hit_def text_like_def ann_row_def) code_simp
  then have f: "search_found (q_of (Some ''ab'')) ann_store = []"
    by (simp add: search_found_def rows_ann_store search_matches_def search_term_def q_of_def
        trim_ab newest_first_def del: like_match.simps)
  show ?thesis
    using search_validation[of "q_of None" ann_store]
      search_validation[of "q_of (Some [])" ann_store]
      search_validation[of "q_of (Some ''a'')" ann_store]
      search_validation[of "q_of (Some ''ab'')" ann_store]
      search_cases[OF q, of ann_store] k f
    by (simp add: q_of_def trim_a trim_ab)
qed

section \<open>Analytics\<close>

lemma scale_props:
  "0 < a \<Longrightarrow> 0 < b \<Longrightarrow> scale a b e = (a', b', e') \<Longrightarrow>
     0 < b' \<and> 2 ^ 52 * b' \<le> a' \<and> a' < 2 ^ 53 * b' \<and>
     real_of_int a' / real_of_int b' * 2 powr real_of_int e' =
       real_of_int a / real_of_int b * 2 powr real_of_int e"
proof (induction a b e rule: scale.induct)
  case (1 a b e)
  show ?case
  proof (cases "a < 2 ^ 52 * b")
    case True
    with "1.prems" have s: "scale (2 * a) b (e - 1) = (a', b', e')"
      by (subst (asm) scale.simps) simp
    have "2 powr real_of_int (e - 1) = 2 powr real_of_int e / 2"
      by (simp add: powr_diff)
    with "1.IH"(1)[OF _ True _ _ s] "1.prems"(1,2) show ?thesis by simp
  next
    case False
    show ?thesis
    proof (cases "2 ^ 53 * b \<le> a")
      case True
      with False "1.prems" have s: "scale a (2 * b) (e + 1) = (a', b', e')"
        by (subst (asm) scale.simps) simp
      have "2 powr real_of_int (e + 1) = 2 powr real_of_int e * 2"
        by (simp add: powr_add)
      with "1.IH"(2)[OF _ False True _ _ s] "1.prems"(1,2) show ?thesis by simp
    next
      case f: False
      with False "1.prems" have "(a', b', e') = (a, b, e)"
        by (subst (asm) scale.simps) simp
      with False f "1.prems"(1,2) show ?thesis by simp
    qed
  qed
qed

lemma round_half_even_near:
  assumes "0 < b"
  shows "\<bar>real_of_int (round_half_even a b) - real_of_int a / real_of_int b\<bar> \<le> 1 / 2"
proof -
  define q where "q = a div b"
  define r where "r = a mod b"
  have r: "0 \<le> r" "r < b" using assms by (simp_all add: r_def)
  have "a = b * q + r" by (simp add: q_def r_def)
  then have "real_of_int a = real_of_int b * real_of_int q + real_of_int r"
    by (metis of_int_add of_int_mult)
  then have ab: "real_of_int a / real_of_int b = real_of_int q + real_of_int r / real_of_int b"
    using assms by (simp add: field_simps)
  have rb: "0 \<le> real_of_int r / real_of_int b" "real_of_int r / real_of_int b < 1"
    using r assms by simp_all
  consider "2 * r < b" | "b < 2 * r" | "2 * r = b" by linarith
  then show ?thesis
  proof cases
    case 1
    then have e: "round_half_even a b = q"
      by (simp add: round_half_even_def q_def r_def Let_def)
    from 1 have "real_of_int (2 * r) < real_of_int b"
      by (simp only: of_int_less_iff)
    then have "real_of_int r / real_of_int b \<le> 1 / 2"
      using assms by (simp add: pos_divide_le_eq)
    with rb show ?thesis unfolding e ab by linarith
  next
    case 2
    then have e: "round_half_even a b = q + 1"
      by (simp add: round_half_even_def q_def r_def Let_def)
    from 2 have "real_of_int b < real_of_int (2 * r)"
      by (simp only: of_int_less_iff)
    then have "1 / 2 \<le> real_of_int r / real_of_int b"
      using assms by (simp add: pos_le_divide_eq)
    with rb show ?thesis unfolding e ab of_int_add of_int_1 by linarith
  next
    case 3
    then have e: "round_half_even a b = q \<or> round_half_even a b = q + 1"
      by (simp add: round_half_even_def q_def r_def Let_def)
    from 3 have "real_of_int (2 * r) = real_of_int b"
      by (simp only:)
    then have h: "real_of_int r / real_of_int b = 1 / 2"
      using assms by (simp add: nonzero_divide_eq_eq)
    from e show ?thesis
    proof
      assume "round_half_even a b = q"
      then show ?thesis unfolding ab h by simp
    next
      assume "round_half_even a b = q + 1"
      then show ?thesis unfolding ab h by simp
    qed
  qed
qed

lemma round_half_even_pos:
  assumes "0 < b" "2 ^ 52 * b \<le> a"
  shows "0 < round_half_even a b"
proof -
  have "2 ^ 52 \<le> a div b"
    using assms by (metis mult.commute zdiv_mono1 nonzero_mult_div_cancel_right less_irrefl)
  moreover have "a div b \<le> round_half_even a b"
    by (simp add: round_half_even_def Let_def)
  moreover have "(0::int) < 2 ^ 52" by simp
  ultimately show ?thesis by linarith
qed

lemma floor_half_near:
  fixes x :: real
  shows "\<bar>real_of_int \<lfloor>x + 1 / 2\<rfloor> - x\<bar> \<le> 1 / 2"
  by linarith

lemma div_as_floor:
  "(k::int) div l = \<lfloor>real_of_int k / real_of_int l\<rfloor>"
  by (simp add: floor_divide_of_int_eq)

lemma round_div_near:
  assumes "0 \<le> a" "0 < b"
  shows "\<bar>real_of_int (round_div a b) - real_of_int a / real_of_int b\<bar> \<le> 1 / 2"
proof (cases "a = 0")
  case True
  then show ?thesis by (simp add: round_div_def)
next
  case False
  with assms have a: "0 < a" by simp
  have "real_of_int (2 * a + b) / real_of_int (2 * b) = real_of_int a / real_of_int b + 1 / 2"
    using assms by (simp add: field_simps)
  then have "round_div a b = \<lfloor>real_of_int a / real_of_int b + 1 / 2\<rfloor>"
    using a assms by (simp add: round_div_def div_as_floor del: of_int_add of_int_mult)
  then show ?thesis using floor_half_near[of "real_of_int a / real_of_int b"] by simp
qed

lemma round_div_nonneg: "0 \<le> a \<Longrightarrow> 0 < b \<Longrightarrow> 0 \<le> round_div a b"
  by (simp add: round_div_def sgn_if pos_imp_zdiv_nonneg_iff)

lemma tenths_near:
  assumes "0 \<le> m"
  shows "\<bar>real_of_int (tenths (m, e)) / 10 - double_value (m, e)\<bar> \<le> 1 / 20"
proof (cases "0 \<le> e")
  case True
  then have "real_of_int e = real (nat e)" by simp
  then have "2 powr real_of_int e = 2 ^ nat e"
    by (simp only: powr_realpow zero_less_numeral)
  with True assms show ?thesis
    by (simp add: tenths_def double_value_def)
next
  case False
  define k where "k = nat (- e)"
  define y where "y = real_of_int m / 2 ^ k"
  from False have e: "real_of_int e = - real k" by (simp add: k_def)
  have p: "double_value (m, e) = y"
    by (simp add: double_value_def y_def e powr_minus powr_realpow field_simps)
  have "real_of_int (20 * m + 2 ^ k) / real_of_int (2 * 2 ^ k) = 10 * y + 1 / 2"
    by (simp add: y_def field_simps)
  then have t: "tenths (m, e) = \<lfloor>10 * y + 1 / 2\<rfloor>"
    using False assms
    by (simp add: tenths_def k_def div_as_floor del: of_int_add of_int_mult of_int_power)
  have "\<bar>real_of_int \<lfloor>10 * y + 1 / 2\<rfloor> - 10 * y\<bar> \<le> 1 / 2"
    by (rule floor_half_near)
  then have "\<bar>real_of_int \<lfloor>10 * y + 1 / 2\<rfloor> / 10 - y\<bar> \<le> 1 / 20"
    by linarith
  then show ?thesis
    by (simp only: t p)
qed

lemma nearest_double_near:
  assumes "0 < p" "0 < q"
  shows "0 < fst (nearest_double p q) \<and>
         \<bar>double_value (nearest_double p q) - real_of_int p / real_of_int q\<bar>
           \<le> real_of_int p / real_of_int q / 2 ^ 53"
proof -
  obtain a b e where s: "scale p q 0 = (a, b, e)" by (cases "scale p q 0") auto
  from scale_props[OF assms s]
  have b: "0 < b" and lo: "2 ^ 52 * b \<le> a"
    and v: "real_of_int a / real_of_int b * 2 powr real_of_int e = real_of_int p / real_of_int q"
    by simp_all
  let ?m = "round_half_even a b"
  have nd: "nearest_double p q = (?m, e)"
    using assms s by (simp add: nearest_double_def)
  have pos: "0 < ?m" by (rule round_half_even_pos[OF b lo])
  have near: "\<bar>real_of_int ?m - real_of_int a / real_of_int b\<bar> \<le> 1 / 2"
    by (rule round_half_even_near[OF b])
  have e0: "0 < (2::real) powr real_of_int e" by simp
  have "real_of_int (2 ^ 52 * b) \<le> real_of_int a" using lo by (simp only: of_int_le_iff)
  then have "2 ^ 52 \<le> real_of_int a / real_of_int b"
    using b by (simp add: field_simps)
  then have "2 ^ 52 * 2 powr real_of_int e \<le> real_of_int a / real_of_int b * 2 powr real_of_int e"
    using e0 by (simp only: mult_le_cancel_right_pos)
  then have pw: "2 powr real_of_int e \<le> real_of_int p / real_of_int q / 2 ^ 52"
    unfolding v by (simp add: field_simps)
  have "real_of_int ?m * 2 powr real_of_int e -
          real_of_int a / real_of_int b * 2 powr real_of_int e =
        (real_of_int ?m - real_of_int a / real_of_int b) * 2 powr real_of_int e"
    by (simp only: left_diff_distrib)
  then have "\<bar>real_of_int ?m * 2 powr real_of_int e -
          real_of_int a / real_of_int b * 2 powr real_of_int e\<bar> =
        \<bar>real_of_int ?m - real_of_int a / real_of_int b\<bar> * \<bar>2 powr real_of_int e\<bar>"
    by (simp only: abs_mult)
  then have "\<bar>double_value (?m, e) - real_of_int p / real_of_int q\<bar> =
        \<bar>real_of_int ?m - real_of_int a / real_of_int b\<bar> * 2 powr real_of_int e"
    unfolding v[symmetric] double_value_def by simp
  also have "\<dots> \<le> 1 / 2 * 2 powr real_of_int e"
    using near e0 by (simp only: mult_le_cancel_right_pos)
  also have "\<dots> \<le> 1 / 2 * (real_of_int p / real_of_int q / 2 ^ 52)"
    using pw by simp
  also have "\<dots> = real_of_int p / real_of_int q / 2 ^ 53"
    by simp
  finally show ?thesis using pos by (simp add: nd)
qed

lemma sum_list_bounds:
  "list_all (\<lambda>r. 0 \<le> r \<and> r < 2 ^ 31) rs \<Longrightarrow>
     0 \<le> sum_list rs \<and> sum_list rs \<le> 2 ^ 31 * int (length rs)"
  by (induction rs) auto

lemma ratings_in_range:
  assumes "rating_in_range s"
  shows "ratings_bounded s \<and> length (ratings s) = length (rows s)"
proof -
  have "list_all (\<lambda>r. case r_overall_rating r of None \<Rightarrow> False | Some n \<Rightarrow> 1 \<le> n \<and> n \<le> 5) xs \<Longrightarrow>
        list_all (\<lambda>r. 0 \<le> r \<and> r < 2 ^ 31) (List.map_filter r_overall_rating xs) \<and>
        length (List.map_filter r_overall_rating xs) = length xs" for xs :: "row list"
    by (induction xs) (auto split: option.splits)
  with assms show ?thesis by (simp add: rating_in_range_def ratings_def ratings_bounded_def)
qed

lemma average_rating_none: "average_rating None = ''0.0''"
  by code_simp

lemma average_rating_zero: "average_rating (Some 0) = show_tenths 0"
  by (simp add: average_rating_def nearest_double_def toFixed1_def tenths_def)

lemma analytics_no_rating:
  "ratings s = [] \<Longrightarrow> analytics s = (200, AnalyticsBody (length (rows s)) ''0.0'')"
  by (simp add: analytics_def sql_avg_def average_rating_none ratings_def)

lemma ratings_no_rows: "rows s = [] \<Longrightarrow> ratings s = []"
  by (simp add: ratings_def)

lemma analytics_near:
  assumes "ratings s \<noteq> []" and "ratings_bounded s"
  shows "\<exists>n. analytics s = (200, AnalyticsBody (length (rows s)) (show_tenths n)) \<and>
             \<bar>real_of_int n / 10 - mean_rating s\<bar> < 501 / 10000"
proof -
  define rs where "rs = ratings s"
  define S where "S = sum_list rs"
  define N where "N = int (length rs)"
  from assms have rng: "list_all (\<lambda>r. 0 \<le> r \<and> r < 2 ^ 31) rs" and ne: "rs \<noteq> []"
    by (auto simp: rs_def ratings_bounded_def)
  from ne have N: "0 < N" by (simp add: N_def)
  from sum_list_bounds[OF rng] have S: "0 \<le> S" "S \<le> 2 ^ 31 * N" by (simp_all add: S_def N_def)
  define mean where "mean = real_of_int S / real_of_int N"
  have mean_eq: "mean_rating s = mean"
    by (simp add: mean_rating_def mean_def S_def N_def rs_def)
  have "real_of_int 0 \<le> real_of_int S" "real_of_int S \<le> real_of_int (2 ^ 31 * N)"
    using S by (simp_all only: of_int_le_iff)
  then have mean_rng: "0 \<le> mean" "mean \<le> 2 ^ 31"
    using N by (simp_all add: mean_def field_simps)
  define m where "m = round_div (S * 10000) N"
  have S0: "0 \<le> S * 10000" using S by simp
  have "real_of_int (S * 10000) / real_of_int N = 10000 * mean"
    by (simp add: mean_def)
  with round_div_near[OF S0 N] have mn: "\<bar>real_of_int m - 10000 * mean\<bar> \<le> 1 / 2"
    by (simp add: m_def)
  have m0: "0 \<le> m" unfolding m_def by (rule round_div_nonneg[OF S0 N])
  define v where "v = real_of_int m / real_of_int 10000"
  have "real_of_int m = 10000 * v" by (simp add: v_def)
  with mn have vm: "\<bar>v - mean\<bar> \<le> 1 / 20000" by linarith
  have avg: "sql_avg rs = Some m"
    using ne by (simp add: sql_avg_def m_def S_def N_def)
  have an: "analytics s = (200, AnalyticsBody (length (rows s)) (average_rating (Some m)))"
    using avg by (simp add: analytics_def rs_def ratings_def)
  show ?thesis
  proof (cases "m = 0")
    case True
    then have "v = 0" by (simp add: v_def)
    with vm have "\<bar>real_of_int 0 / 10 - mean\<bar> < 501 / 10000" by simp
    with an True mean_eq show ?thesis
      by (auto simp: average_rating_zero)
  next
    case False
    with m0 have mp: "0 < m" by simp
    from m0 have "0 \<le> v" by (simp add: v_def)
    moreover from vm mean_rng have "v \<le> 2 ^ 31 + 1" by linarith
    ultimately have v6: "0 \<le> v" "v \<le> 2 ^ 31 + 1" by simp_all
    define D where "D = nearest_double m 10000"
    from nearest_double_near[OF mp, of 10000]
    have D0: "0 < fst D" and Dv: "\<bar>double_value D - v\<bar> \<le> v / 2 ^ 53"
      by (simp_all add: D_def v_def)
    have "v / 2 ^ 53 \<le> (2 ^ 31 + 1) / 2 ^ 53" using v6 by (simp add: divide_right_mono)
    also have "\<dots> \<le> (1 / 100000 :: real)" by simp
    finally have Dv': "\<bar>double_value D - v\<bar> \<le> 1 / 100000" using Dv by linarith
    define n where "n = tenths D"
    from tenths_near[of "fst D" "snd D"] D0
    have nD: "\<bar>real_of_int n / 10 - double_value D\<bar> \<le> 1 / 20"
      by (simp add: n_def)
    have bound: "\<bar>real_of_int n / 10 - mean\<bar> < 501 / 10000"
      using nD Dv' vm by linarith
    have "toFixed1 D = show_tenths n"
      using D0 by (simp add: toFixed1_def n_def)
    with an have "analytics s = (200, AnalyticsBody (length (rows s)) (show_tenths n))"
      by (simp add: average_rating_def D_def)
    with bound mean_eq show ?thesis by auto
  qed
qed

text \<open>
  C7, amended. The report of a store with no record, or with no rating that is not
  \<open>NULL\<close>, has \<open>average_rating\<close> \<open>0.0\<close>. The report of a store with ratings, all
  non-negative and below \<open>2^31\<close>, has as \<open>average_rating\<close> a number of tenths, written with
  one decimal place, that is less than 0.0501 from the mean of the ratings: it is the
  mean rounded to one decimal place whenever the mean is 0.0499 or less from a number
  with one decimal place, that is, not within 0.0001 of the middle of two of them. A
  store with records, all rated from 1 to 5, is such a store.
\<close>

theorem analytics_average_rating:
  "(rows s = [] \<longrightarrow> analytics s = (200, AnalyticsBody 0 ''0.0'')) \<and>
   (ratings s = [] \<longrightarrow> analytics s = (200, AnalyticsBody (length (rows s)) ''0.0'')) \<and>
   (ratings s \<noteq> [] \<and> ratings_bounded s \<longrightarrow>
      (\<exists>n. analytics s = (200, AnalyticsBody (length (rows s)) (show_tenths n)) \<and>
           \<bar>real_of_int n / 10 - mean_rating s\<bar> < 501 / 10000 \<and>
           (\<forall>k. \<bar>real_of_int k / 10 - mean_rating s\<bar> \<le> 499 / 10000 \<longrightarrow> n = k))) \<and>
   (rows s \<noteq> [] \<and> rating_in_range s \<longrightarrow> ratings s \<noteq> [] \<and> ratings_bounded s)"
proof -
  have "\<exists>n. analytics s = (200, AnalyticsBody (length (rows s)) (show_tenths n)) \<and>
           \<bar>real_of_int n / 10 - mean_rating s\<bar> < 501 / 10000 \<and>
           (\<forall>k. \<bar>real_of_int k / 10 - mean_rating s\<bar> \<le> 499 / 10000 \<longrightarrow> n = k)"
    if "ratings s \<noteq> []" "ratings_bounded s"
  proof -
    from analytics_near[OF that] obtain n where
      n: "analytics s = (200, AnalyticsBody (length (rows s)) (show_tenths n))"
        "\<bar>real_of_int n / 10 - mean_rating s\<bar> < 501 / 10000"
      by blast
    have "n = k" if "\<bar>real_of_int k / 10 - mean_rating s\<bar> \<le> 499 / 10000" for k
    proof -
      from n(2) that have "\<bar>real_of_int n - real_of_int k\<bar> < 1" by linarith
      then have "\<bar>real_of_int (n - k)\<bar> < 1" by simp
      then have "\<bar>n - k\<bar> < 1" by linarith
      then show ?thesis by simp
    qed
    with n show ?thesis by blast
  qed
  moreover have "rows s = [] \<longrightarrow> analytics s = (200, AnalyticsBody 0 ''0.0'')"
    using analytics_no_rating[OF ratings_no_rows, of s] by simp
  moreover have "rows s \<noteq> [] \<and> rating_in_range s \<longrightarrow> ratings s \<noteq> [] \<and> ratings_bounded s"
    using ratings_in_range[of s] by auto
  ultimately show ?thesis using analytics_no_rating[of s] by blast
qed

lemma ratings_rated:
  "List.map_filter r_overall_rating (map (rated_row r) xs) = replicate (length xs) r"
  by (induction xs) (simp_all add: rated_row_def)

lemma map_filter_append:
  "List.map_filter f (xs @ ys) = List.map_filter f xs @ List.map_filter f ys"
  by (simp add: List.map_filter_def)

lemma ratings_rated_upto:
  "List.map_filter r_overall_rating (map (rated_row r) [i..j] @ map (rated_row r') [i'..j']) =
     replicate (nat (j - i + 1)) r @ replicate (nat (j' - i' + 1)) r'"
  by (simp only: map_filter_append ratings_rated length_upto)

lemma length_rated_upto:
  "length (map (rated_row r) [i..j] @ map (rated_row r') [i'..j']) =
     nat (j - i + 1) + nat (j' - i' + 1)"
  by (simp only: length_append length_map length_upto)

lemma ratings_tie: "ratings tie_store = replicate 17 3 @ replicate 3 4"
  unfolding ratings_def tie_store_def store.select_convs ratings_rated_upto by simp

lemma ratings_large: "ratings large_store = replicate 652 2 @ replicate 351 3"
  unfolding ratings_def large_store_def store.select_convs ratings_rated_upto by simp

lemma length_tie: "length (rows tie_store) = 20"
  unfolding tie_store_def store.select_convs length_rated_upto by simp

lemma length_large: "length (rows large_store) = 1003"
  unfolding large_store_def store.select_convs length_rated_upto by simp

lemma avg_tie: "average_rating (Some 31500) = ''3.1''"
  by code_simp

lemma avg_large: "average_rating (Some 23500) = ''2.4''"
  by code_simp

lemma show_32: "show_tenths 32 = ''3.2''"
  by code_simp

lemma show_23: "show_tenths 23 = ''2.3''"
  by code_simp

lemma show_37: "show_tenths 37 = ''3.7''"
  by code_simp

text \<open>
  C7, as the claim states it, fails. For twenty ratings of mean 3.15 the report has
  \<open>3.1\<close>, since the double nearest to 3.15 is below it, where rounding to one decimal place
  gives 3.2. For 1003 ratings of mean 2357/1003, which is below 2.35, the report has
  \<open>2.4\<close>, since the store gives the average as 2.3500, where rounding to one decimal
  place gives 2.3.
\<close>

theorem average_rating_counterexample:
  "analytics tie_store = (200, AnalyticsBody 20 ''3.1'') \<and>
   mean_rating tie_store = 63 / 20 \<and>
   show_tenths (round_tenths (mean_rating tie_store)) = ''3.2'' \<and>
   analytics large_store = (200, AnalyticsBody 1003 ''2.4'') \<and>
   mean_rating large_store = 2357 / 1003 \<and>
   show_tenths (round_tenths (mean_rating large_store)) = ''2.3''"
proof -
  have a1: "analytics tie_store = (200, AnalyticsBody 20 ''3.1'')"
    by (simp add: analytics_def ratings_def[symmetric] ratings_tie sql_avg_def round_div_def
        sum_list_replicate avg_tie length_tie)
  have m1: "mean_rating tie_store = 63 / 20"
    by (simp add: mean_rating_def ratings_tie sum_list_replicate)
  have r1: "round_tenths (63 / 20) = 32"
    by (simp add: round_tenths_def)
  have a2: "analytics large_store = (200, AnalyticsBody 1003 ''2.4'')"
    by (simp add: analytics_def ratings_def[symmetric] ratings_large sql_avg_def round_div_def
        sum_list_replicate avg_large length_large)
  have m2: "mean_rating large_store = 2357 / 1003"
    by (simp add: mean_rating_def ratings_large sum_list_replicate)
  have r2: "round_tenths (2357 / 1003) = 23"
    unfolding round_tenths_def by (rule floor_unique) simp_all
  show ?thesis
    by (simp add: a1 m1 r1 show_32 a2 m2 r2 show_23)
qed

lemma three_store_facts:
  "ratings three_store = [3, 5, 3]" "ratings_bounded three_store"
  "length (rows three_store) = 3" "mean_rating three_store = 11 / 3"
  by (simp_all add: three_store_def ratings_bounded_def mean_rating_def ratings_def
      ann_row_def bob_row_def cy_row_def)

theorem analytics_average_rating_witness:
  "analytics empty_store = (200, AnalyticsBody 0 ''0.0'') \<and>
   ratings three_store = [3, 5, 3] \<and> ratings_bounded three_store \<and>
   mean_rating three_store = 11 / 3 \<and>
   analytics three_store = (200, AnalyticsBody 3 ''3.7'')"
proof -
  have e: "analytics empty_store = (200, AnalyticsBody 0 ''0.0'')"
    using analytics_average_rating[of empty_store] by (simp add: empty_store_def)
  have "ratings three_store \<noteq> []" by (simp add: three_store_facts(1))
  with analytics_average_rating[of three_store] three_store_facts(2)
  obtain n where n: "analytics three_store = (200, AnalyticsBody (length (rows three_store)) (show_tenths n))"
    "\<And>k. \<bar>real_of_int k / 10 - mean_rating three_store\<bar> \<le> 499 / 10000 \<Longrightarrow> n = k"
    by blast
  have "n = 37"
    by (rule n(2)) (simp add: three_store_facts(4))
  with n(1) e three_store_facts show ?thesis
    by (simp add: show_37)
qed

section \<open>Further properties\<close>

lemma submit_unchanged:
  assumes "fst (fst (submit b now s)) \<noteq> 201"
  shows "snd (submit b now s) = s"
  using assms
  by (auto simp: submit_def internal_error_def split: if_splits option.splits sum.splits)

text \<open>
  Submit keeps the invariant of the ratings when the rating of the request is an
  integer: when every stored rating is from 1 to 5 before the request, every stored
  rating is from 1 to 5 after it.
\<close>

theorem submit_keeps_rating_in_range:
  assumes "rating_in_range s" and "integer_of (b_overall_rating b) = Some n"
  shows "rating_in_range (snd (submit b now s))"
proof (cases "fst (fst (submit b now s)) = 201")
  case False
  with submit_unchanged[OF False] assms(1) show ?thesis by simp
next
  case True
  from assms(2) have r: "b_overall_rating b = JNum (Number (of_int n))"
    by (auto simp: integer_of_def split: jsval.splits number.splits if_splits)
  from True have "\<not> js_lt (b_overall_rating b) 1" "\<not> js_gt (b_overall_rating b) 5"
    by (auto simp: submit_def split: if_splits)
  then have n: "1 \<le> n" "n \<le> 5"
    by (simp_all add: r js_lt_def js_gt_def)
  from True assms(1) n show ?thesis
    by (auto simp: submit_def internal_error_def all_params_six execute_insert_def r
        rating_in_range_def split: if_splits option.splits)
qed

theorem submit_keeps_rating_in_range_witness:
  "rating_in_range ann_store \<and> integer_of (b_overall_rating ann_body) = Some 3 \<and>
   rating_in_range (snd (submit ann_body 10 ann_store))"
proof -
  have "rating_in_range ann_store"
    by (simp add: rating_in_range_def ann_store_def ann_row_def)
  moreover have "integer_of (b_overall_rating ann_body) = Some 3"
    by (simp add: integer_of_def ann_body_def)
  ultimately show ?thesis
    using submit_keeps_rating_in_range[of ann_store ann_body 3 10] by simp
qed

text \<open>
  Submit keeps the ids of the store unique and below the next id that the store
  generates.
\<close>

theorem wf_store_submit:
  assumes "wf_store s"
  shows "wf_store (snd (submit b now s))"
proof (cases "fst (fst (submit b now s)) = 201")
  case False
  with submit_unchanged[OF False] assms show ?thesis by simp
next
  case True
  from submit_accepted[OF True] obtain r where
    r: "snd (submit b now s) = s\<lparr>rows := rows s @ [r], next_id := next_id s + 1\<rparr>"
      "row_id r = next_id s"
    by blast
  from assms show ?thesis
    by (auto simp: r wf_store_def list_all_iff)
qed

theorem wf_store_submit_witness:
  "wf_store empty_store \<and> wf_store (snd (submit ann_body 10 empty_store)) \<and>
   snd (submit ann_body 10 empty_store) = ann_store"
  using wf_store_submit[OF wf_empty, of ann_body 10] wf_empty by (simp add: submit_ann)

end
